theory Spec2Isabelle
  imports Complex_Main "HOL-Library.Char_ord" "HOL-Library.List_Lexorder" "HOL-Library.Multiset"
    "HOL-Library.Product_Lexorder"
begin

section \<open>Data model\<close>

text \<open>
  The program is one Python script, \<^verbatim>\<open>chicago_visualization_full_code.py\<close>, that loads a
  table with pandas and derives ten views from it. The table is modelled after loading
  (line 19): a list of column names, in file order, and a list of rows; a row gives every
  column name a cell; \<open>datetimes\<close> are the names of the columns whose dtype is
  \<open>datetime64[ns]\<close>, the others have a numeric, boolean or object dtype. A cell is what a pandas cell can hold here: a missing value
  (\<open>NaN\<close>, \<open>None\<close>, \<open>NaT\<close>), an unparsed string, a boolean, a number, a timestamp
  (\<open>datetime64[ns]\<close>: nanoseconds since 1970-01-01) or a calendar date
  (\<open>datetime.date\<close>: year, month, day). Numbers are real numbers: the rounding of
  floating point is not modelled.
\<close>

datatype cell = NA | Str string | Bool bool | Num real | Time int | Date int int int

datatype py_error = KeyError string | AttributeError | ValueError | TypeError | IndexError

type_synonym row = "string \<Rightarrow> cell"

record dataframe =
  columns :: "string list"
  datetimes :: "string list"
  rows :: "row list"

text \<open>A pandas Series that results from an aggregation: index labels with their values.\<close>

type_synonym 'v series = "(cell \<times> 'v) list"

definition and_then :: "'e + 'a \<Rightarrow> ('a \<Rightarrow> 'e + 'b) \<Rightarrow> 'e + 'b" where
  "and_then r f = (case r of Inl e \<Rightarrow> Inl e | Inr x \<Rightarrow> f x)"

section \<open>The pandas operations the script calls\<close>

text \<open>
  pandas, numpy and matplotlib are libraries outside the repository; each operation the
  script calls is modelled by its documented behaviour, under its pandas name.
\<close>

text \<open>\<open>len(df)\<close>\<close>

definition len :: "dataframe \<Rightarrow> nat" where
  "len df = length (rows df)"

text \<open>\<open>df[c]\<close>: the column, or \<open>KeyError\<close> when the table has no such column.\<close>

definition getitem :: "dataframe \<Rightarrow> string \<Rightarrow> py_error + cell list" where
  "getitem df c =
     (if c \<in> set (columns df) then Inr (map (\<lambda>r. r c) (rows df)) else Inl (KeyError c))"

text \<open>
  \<open>df[c] = s\<close>: overwrites the column when it exists, appends it otherwise. The column
  takes the dtype of the series: \<open>setitem\<close> assigns a series that is not of dtype
  \<open>datetime64[ns]\<close>, \<open>setitem_datetime\<close> one that is.
\<close>

definition setitem :: "dataframe \<Rightarrow> string \<Rightarrow> cell list \<Rightarrow> dataframe" where
  "setitem df c s =
     df\<lparr>columns := (if c \<in> set (columns df) then columns df else columns df @ [c]),
        datetimes := removeAll c (datetimes df),
        rows := map (\<lambda>(r, v). r(c := v)) (zip (rows df) s)\<rparr>"

definition setitem_datetime :: "dataframe \<Rightarrow> string \<Rightarrow> cell list \<Rightarrow> dataframe" where
  "setitem_datetime df c s =
     (setitem df c s)\<lparr>datetimes :=
        (if c \<in> set (datetimes df) then datetimes df else datetimes df @ [c])\<rparr>"

text \<open>\<open>df.dropna(subset=cs)\<close>: keeps the rows with no missing value in the columns \<open>cs\<close>.\<close>

definition dropna :: "dataframe \<Rightarrow> string list \<Rightarrow> py_error + dataframe" where
  "dropna df cs =
     (case filter (\<lambda>c. c \<notin> set (columns df)) cs of
        c # _ \<Rightarrow> Inl (KeyError c)
      | [] \<Rightarrow> Inr (df\<lparr>rows := filter (\<lambda>r. list_all (\<lambda>c. r c \<noteq> NA) cs) (rows df)\<rparr>))"

text \<open>\<open>s.dropna()\<close> on a column.\<close>

definition dropna_series :: "cell list \<Rightarrow> cell list" where
  "dropna_series s = filter (\<lambda>c. c \<noteq> NA) s"

text \<open>
  The order pandas sorts labels in. Labels of one kind are ordered by their value; the
  order between kinds is a choice of this model (no statement below depends on it).
\<close>

fun cell_key :: "cell \<Rightarrow> nat \<times> real \<times> string \<times> int \<times> int \<times> int" where
  "cell_key NA = (0, 0, [], 0, 0, 0)"
| "cell_key (Bool b) = (1, of_bool b, [], 0, 0, 0)"
| "cell_key (Num x) = (2, x, [], 0, 0, 0)"
| "cell_key (Str s) = (3, 0, s, 0, 0, 0)"
| "cell_key (Time t) = (4, 0, [], t, 0, 0)"
| "cell_key (Date y m d) = (5, 0, [], y, m, d)"

text \<open>
  \<open>s.value_counts()\<close>: missing values are dropped, every distinct value is counted, and
  the result is sorted by descending count. The order pandas gives to values with the
  same count depends on its sorting routine; here they are kept in the order of their
  first occurrence, and no statement below depends on the order among equal counts.
\<close>

definition first_seen :: "'a list \<Rightarrow> 'a list" where
  "first_seen xs = rev (remdups (rev xs))"

definition value_counts :: "cell list \<Rightarrow> nat series" where
  "value_counts s =
     (let vs = dropna_series s
      in sort_key (\<lambda>(k, n). - int n) (map (\<lambda>k. (k, count_list vs k)) (first_seen vs)))"

text \<open>\<open>s.head(n)\<close>\<close>

definition head :: "nat \<Rightarrow> 'a list \<Rightarrow> 'a list" where
  "head n s = take n s"

text \<open>\<open>s.isin(values)\<close>\<close>

definition isin :: "cell list \<Rightarrow> cell list \<Rightarrow> bool list" where
  "isin s vs = map (\<lambda>c. c \<in> set vs) s"

text \<open>\<open>df[mask]\<close>: the rows where the boolean mask is true.\<close>

definition getitem_mask :: "dataframe \<Rightarrow> bool list \<Rightarrow> dataframe" where
  "getitem_mask df keep = df\<lparr>rows := map fst (filter snd (zip (rows df) keep))\<rparr>"

text \<open>
  \<open>s.mean()\<close> of one group: missing values are skipped, booleans count as 0 and 1, a group
  with no value left has the mean \<open>NaN\<close> (there is no division by zero), and a value that
  is not a number makes the aggregation fail.
\<close>

fun is_numeric :: "cell \<Rightarrow> bool" where
  "is_numeric (Bool b) = True"
| "is_numeric (Num x) = True"
| "is_numeric c = False"

fun num_val :: "cell \<Rightarrow> real" where
  "num_val (Bool b) = of_bool b"
| "num_val (Num x) = x"
| "num_val c = 0"

definition mean :: "cell list \<Rightarrow> py_error + cell" where
  "mean s =
     (let vs = dropna_series s
      in if \<not> list_all is_numeric vs then Inl TypeError
         else if vs = [] then Inr NA
         else Inr (Num (sum_list (map num_val vs) / real (length vs))))"

text \<open>
  \<open>df.groupby(keys)\<close>: rows with a missing key are dropped, and the groups come in the
  sorted order of their keys. \<open>group_keys\<close> are the sorted distinct keys.
\<close>

definition group_keys :: "('k \<Rightarrow> 'o::linorder) \<Rightarrow> 'k list \<Rightarrow> 'k list" where
  "group_keys ord ks = sort_key ord (remdups ks)"

text \<open>\<open>.size()\<close> of a grouping: the number of rows of every group.\<close>

definition groupby_size :: "('k \<Rightarrow> 'o::linorder) \<Rightarrow> 'k list \<Rightarrow> ('k \<times> nat) list" where
  "groupby_size ord ks = map (\<lambda>k. (k, count_list ks k)) (group_keys ord ks)"

text \<open>\<open>df.groupby(k)[v].mean()\<close>\<close>

fun mean_groups :: "(cell \<times> cell) list \<Rightarrow> cell list \<Rightarrow> py_error + cell series" where
  "mean_groups kvs [] = Inr []"
| "mean_groups kvs (k # ks) =
     (case mean (map snd (filter (\<lambda>kv. fst kv = k) kvs)) of
        Inl e \<Rightarrow> Inl e
      | Inr m \<Rightarrow> (case mean_groups kvs ks of Inl e \<Rightarrow> Inl e | Inr ms \<Rightarrow> Inr ((k, m) # ms)))"

definition groupby_mean :: "dataframe \<Rightarrow> string \<Rightarrow> string \<Rightarrow> py_error + cell series" where
  "groupby_mean df k v =
     and_then (getitem df k) (\<lambda>ks.
     and_then (getitem df v) (\<lambda>vs.
       let kvs = filter (\<lambda>kv. fst kv \<noteq> NA) (zip ks vs)
       in mean_groups kvs (group_keys cell_key (map fst kvs))))"

text \<open>\<open>s.loc[labels]\<close>: the entries for the labels, in their order; a missing label fails.\<close>

fun label_text :: "cell \<Rightarrow> string" where
  "label_text (Str s) = s"
| "label_text c = []"

fun loc :: "'v series \<Rightarrow> cell list \<Rightarrow> py_error + 'v series" where
  "loc s [] = Inr []"
| "loc s (l # ls) =
     (case map_of s l of
        None \<Rightarrow> Inl (KeyError (label_text l))
      | Some v \<Rightarrow> (case loc s ls of Inl e \<Rightarrow> Inl e | Inr r \<Rightarrow> Inr ((l, v) # r)))"

text \<open>
  \<open>s.reindex(labels)\<close>: the entries for the labels, in their order; a label the series
  does not have gets \<open>NaN\<close>. \<open>s.fillna(0)\<close> replaces \<open>NaN\<close> by 0.
\<close>

definition reindex :: "nat series \<Rightarrow> string list \<Rightarrow> (string \<times> nat option) list" where
  "reindex s labels = map (\<lambda>l. (l, map_of s (Str l))) labels"

definition fillna :: "nat \<Rightarrow> (string \<times> nat option) list \<Rightarrow> (string \<times> nat) list" where
  "fillna d s = map (\<lambda>(l, v). (l, case v of None \<Rightarrow> d | Some n \<Rightarrow> n)) s"

text \<open>\<open>s.sort_index()\<close> and \<open>s.cumsum()\<close>\<close>

definition sort_index :: "nat series \<Rightarrow> nat series" where
  "sort_index s = sort_key (\<lambda>kv. cell_key (fst kv)) s"

fun running :: "nat \<Rightarrow> nat list \<Rightarrow> nat list" where
  "running acc [] = []"
| "running acc (x # xs) = (acc + x) # running (acc + x) xs"

definition cumsum :: "nat series \<Rightarrow> nat series" where
  "cumsum s = zip (map fst s) (running 0 (map snd s))"

subsection \<open>Timestamps\<close>

text \<open>
  The \<open>.dt\<close> accessor exists on a series of dtype \<open>datetime64[ns]\<close> only; on any
  other series pandas raises \<open>AttributeError\<close>. \<open>dt df c s\<close> is the accessor on the
  series \<open>s = df[c]\<close>. \<open>read_csv\<close> with \<open>parse_dates\<close> gives the timestamp column
  that dtype when it has parsed every value of it; a column with a value it cannot parse
  as a date, and the column of a file without rows, is left with the object dtype. A
  column of dtype \<open>datetime64[ns]\<close> holds timestamps and \<open>NaT\<close> only; the accessor
  of the model also fails on a table that breaks this, which pandas cannot build.
\<close>

fun datetimelike :: "cell \<Rightarrow> bool" where
  "datetimelike NA = True"
| "datetimelike (Time t) = True"
| "datetimelike c = False"

definition dt :: "dataframe \<Rightarrow> string \<Rightarrow> cell list \<Rightarrow> py_error + cell list" where
  "dt df c s =
     (if c \<in> set (datetimes df) \<and> list_all datetimelike s then Inr s
      else Inl AttributeError)"

definition ns_per_day :: int where
  "ns_per_day = 86400000000000"

definition ns_per_hour :: int where
  "ns_per_hour = 3600000000000"

text \<open>
  The proleptic Gregorian calendar: the date of a day number (days since 1970-01-01) and
  back. Years are counted from 1 March, in cycles of 400, 100, 4 and 1 years, so that the
  leap day is the last day of its year.
\<close>

definition doy_of_doq :: "int \<Rightarrow> int" where
  "doy_of_doq doq = doq - min 3 (doq div 365) * 365"

definition month_of_doy :: "int \<Rightarrow> int" where
  "month_of_doy doy = (let mp = (5 * doy + 2) div 153 in if mp < 10 then mp + 3 else mp - 9)"

definition day_of_doy :: "int \<Rightarrow> int" where
  "day_of_doy doy = (let mp = (5 * doy + 2) div 153 in doy - (153 * mp + 2) div 5 + 1)"

definition civil_from_days :: "int \<Rightarrow> int \<times> int \<times> int" where
  "civil_from_days z0 =
     (let z = z0 + 719468;
          era = z div 146097;
          doe = z mod 146097;
          c = min 3 (doe div 36524);
          doc = doe - c * 36524;
          q = doc div 1461;
          doq = doc mod 1461;
          a = min 3 (doq div 365);
          doy = doy_of_doq doq;
          m = month_of_doy doy;
          y = era * 400 + c * 100 + q * 4 + a + (if m \<le> 2 then 1 else 0)
      in (y, m, day_of_doy doy))"

definition days_from_civil :: "int \<Rightarrow> int \<Rightarrow> int \<Rightarrow> int" where
  "days_from_civil y0 m d =
     (let y = (if m \<le> 2 then y0 - 1 else y0);
          era = y div 400;
          yoe = y - era * 400;
          doy = (153 * (if m > 2 then m - 3 else m + 9) + 2) div 5 + d - 1;
          doe = yoe * 365 + yoe div 4 - yoe div 100 + doy
      in era * 146097 + doe - 719468)"

definition year_of :: "int \<Rightarrow> int" where
  "year_of t = fst (civil_from_days (t div ns_per_day))"

definition month_of :: "int \<Rightarrow> int" where
  "month_of t = fst (snd (civil_from_days (t div ns_per_day)))"

definition day_of :: "int \<Rightarrow> int" where
  "day_of t = snd (snd (civil_from_days (t div ns_per_day)))"

definition hour_of :: "int \<Rightarrow> int" where
  "hour_of t = (t mod ns_per_day) div ns_per_hour"

definition weekday_order :: "string list" where
  "weekday_order =
     [''Monday'', ''Tuesday'', ''Wednesday'', ''Thursday'', ''Friday'', ''Saturday'', ''Sunday'']"

text \<open>1970-01-01 was a Thursday.\<close>

definition day_name_of :: "int \<Rightarrow> string" where
  "day_name_of t = weekday_order ! nat ((t div ns_per_day + 3) mod 7)"

text \<open>The elementwise \<open>.dt\<close> properties; \<open>NaT\<close> gives a missing value.\<close>

fun dt_year :: "cell \<Rightarrow> cell" where
  "dt_year (Time t) = Num (of_int (year_of t))"
| "dt_year c = NA"

fun dt_month :: "cell \<Rightarrow> cell" where
  "dt_month (Time t) = Num (of_int (month_of t))"
| "dt_month c = NA"

fun dt_day :: "cell \<Rightarrow> cell" where
  "dt_day (Time t) = Num (of_int (day_of t))"
| "dt_day c = NA"

fun dt_hour :: "cell \<Rightarrow> cell" where
  "dt_hour (Time t) = Num (of_int (hour_of t))"
| "dt_hour c = NA"

fun dt_day_name :: "cell \<Rightarrow> cell" where
  "dt_day_name (Time t) = Str (day_name_of t)"
| "dt_day_name c = NA"

fun dt_date :: "cell \<Rightarrow> cell" where
  "dt_date (Time t) = Date (year_of t) (month_of t) (day_of t)"
| "dt_date c = NA"

text \<open>
  \<open>.dt.to_period('M')\<close> numbers the month of a timestamp (months since January 1970), and
  \<open>.dt.to_timestamp()\<close> gives the first instant of that month.
\<close>

definition period_ordinal :: "int \<Rightarrow> int" where
  "period_ordinal t = (year_of t - 1970) * 12 + month_of t - 1"

definition period_start :: "int \<Rightarrow> int" where
  "period_start p = days_from_civil (1970 + p div 12) (p mod 12 + 1) 1 * ns_per_day"

fun dt_to_period_M_to_timestamp :: "cell \<Rightarrow> cell" where
  "dt_to_period_M_to_timestamp (Time t) = Time (period_start (period_ordinal t))"
| "dt_to_period_M_to_timestamp c = NA"

subsection \<open>Conversions, histogram, sampling\<close>

text \<open>
  \<open>s.astype(int)\<close>: a number is truncated towards zero, a boolean is 0 or 1, a string that
  \<open>read_csv\<close> left unparsed is not a number.
\<close>

fun to_int :: "cell \<Rightarrow> py_error + int" where
  "to_int (Num x) = Inr (if 0 \<le> x then \<lfloor>x\<rfloor> else \<lceil>x\<rceil>)"
| "to_int (Bool b) = Inr (of_bool b)"
| "to_int (Str s) = Inl ValueError"
| "to_int c = Inl TypeError"

fun astype_int :: "cell list \<Rightarrow> py_error + int list" where
  "astype_int [] = Inr []"
| "astype_int (c # cs) =
     (case to_int c of
        Inl e \<Rightarrow> Inl e
      | Inr i \<Rightarrow> (case astype_int cs of Inl e \<Rightarrow> Inl e | Inr r \<Rightarrow> Inr (i # r)))"

text \<open>
  The counts of \<open>hist(x, bins=24, range=(0,24))\<close> on integers: one bin per hour, the last
  bin closed on the right; a value outside the range is not counted.
\<close>

definition hist24 :: "int list \<Rightarrow> nat list" where
  "hist24 hs = map (\<lambda>b. length (filter (\<lambda>h. h = b \<or> (b = 23 \<and> h = 24)) hs)) [0..23]"

text \<open>
  numpy's random generator is a parameter: \<open>seed_state\<close> is the state of
  \<open>RandomState(seed)\<close>, and \<open>draw\<close> gives, in a state, a permutation of \<open>range(N)\<close>
  and the state after the draw. The state of numpy's global generator is threaded through
  the script as the only mutable state a run could depend on.
\<close>

type_synonym rng_state = nat

record generator =
  seed_state :: "int \<Rightarrow> rng_state"
  draw :: "rng_state \<Rightarrow> nat \<Rightarrow> nat list \<times> rng_state"

text \<open>\<open>df.take(locs)\<close>: the rows at the positions, in that order.\<close>

definition take_rows :: "dataframe \<Rightarrow> nat list \<Rightarrow> py_error + dataframe" where
  "take_rows df locs =
     (if list_all (\<lambda>i. i < len df) locs then Inr (df\<lparr>rows := map (\<lambda>i. rows df ! i) locs\<rparr>)
      else Inl IndexError)"

text \<open>
  \<open>df.sample(n=n, random_state=rs)\<close>, without replacement: \<open>n\<close> above the number of
  rows raises \<open>ValueError\<close> (``Cannot take a larger sample than population''); otherwise
  the rows at the first \<open>n\<close> positions of a permutation are taken. With
  \<open>random_state\<close> an integer the permutation comes from a fresh generator seeded with
  it; with \<open>None\<close> it comes from the global generator, which advances.
\<close>

definition sample ::
  "generator \<Rightarrow> rng_state \<Rightarrow> dataframe \<Rightarrow> nat \<Rightarrow> int option \<Rightarrow> (py_error + dataframe) \<times> rng_state"
where
  "sample gen g df n random_state =
     (if n > len df then (Inl ValueError, g)
      else (case random_state of
              Some seed \<Rightarrow> (take_rows df (take n (fst (draw gen (seed_state gen seed) (len df)))), g)
            | None \<Rightarrow> (take_rows df (take n (fst (draw gen g (len df)))),
                       snd (draw gen g (len df)))))"

text \<open>\<open>str.lower()\<close> and \<open>str.startswith(p)\<close>, on ASCII.\<close>

definition lower_char :: "char \<Rightarrow> char" where
  "lower_char c =
     (if CHR ''A'' \<le> c \<and> c \<le> CHR ''Z'' then char_of (of_char c + (32::nat)) else c)"

definition lower :: "string \<Rightarrow> string" where
  "lower s = map lower_char s"

definition startswith :: "string \<Rightarrow> string \<Rightarrow> bool" where
  "startswith s p = (take (length p) s = p)"

section \<open>The script\<close>

subsection \<open>Ensure temporal fields (lines 22--27)\<close>

text \<open>One assignment \<open>df[c] = df['IncidentDate'].dt.f\<close>.\<close>

definition assign_dt :: "dataframe \<Rightarrow> string \<Rightarrow> (cell \<Rightarrow> cell) \<Rightarrow> py_error + dataframe" where
  "assign_dt df c f =
     and_then (getitem df ''IncidentDate'') (\<lambda>s.
     and_then (dt df ''IncidentDate'' s) (\<lambda>d. Inr (setitem df c (map f d))))"

definition ensure_temporal_fields :: "dataframe \<Rightarrow> py_error + dataframe" where
  "ensure_temporal_fields df =
     (if ''Year'' \<notin> set (columns df) \<and> ''IncidentDate'' \<in> set (columns df) then
        and_then (assign_dt df ''Year'' dt_year) (\<lambda>df1.
        and_then (assign_dt df1 ''Month'' dt_month) (\<lambda>df2.
        and_then (assign_dt df2 ''Day'' dt_day) (\<lambda>df3.
        and_then (assign_dt df3 ''Hour'' dt_hour) (\<lambda>df4.
        assign_dt df4 ''Weekday'' dt_day_name))))
      else Inr df)"

subsection \<open>Detect lat/lon columns (lines 30--31)\<close>

definition lat_col :: "dataframe \<Rightarrow> string option" where
  "lat_col df = find (\<lambda>c. startswith (lower c) ''lat'') (columns df)"

definition lon_col :: "dataframe \<Rightarrow> string option" where
  "lon_col df = find (\<lambda>c. startswith (lower c) ''lon'') (columns df)"

text \<open>Python's truth value of \<open>lat_col\<close>: neither \<open>None\<close> nor the empty string.\<close>

fun truthy :: "string option \<Rightarrow> bool" where
  "truthy None = False"
| "truthy (Some s) = (s \<noteq> [])"

subsection \<open>Visualizations 1, 2 and 6: rankings and arrest rate\<close>

definition top_primary :: "dataframe \<Rightarrow> py_error + nat series" where
  "top_primary df =
     and_then (getitem df ''Primary Type'') (\<lambda>s. Inr (head 10 (value_counts s)))"

definition arrest_rate :: "dataframe \<Rightarrow> cell list \<Rightarrow> py_error + cell series" where
  "arrest_rate df top10 =
     and_then (getitem df ''Primary Type'') (\<lambda>s.
     and_then (groupby_mean (getitem_mask df (isin s top10)) ''Primary Type'' ''Arrest'') (\<lambda>g.
       loc g top10))"

definition loc_top10 :: "dataframe \<Rightarrow> py_error + nat series" where
  "loc_top10 df =
     and_then (getitem df ''Location Description'') (\<lambda>s. Inr (head 10 (value_counts s)))"

subsection \<open>Visualizations 3 and 9: monthly counts and their running sum\<close>

definition df_ts :: "dataframe \<Rightarrow> py_error + dataframe" where
  "df_ts df =
     and_then (dropna df [''IncidentDate'']) (\<lambda>d.
     and_then (getitem d ''IncidentDate'') (\<lambda>s.
     and_then (dt d ''IncidentDate'' s) (\<lambda>t.
       Inr (setitem_datetime d ''YearMonth'' (map dt_to_period_M_to_timestamp t)))))"

definition monthly :: "dataframe \<Rightarrow> py_error + nat series" where
  "monthly df =
     and_then (df_ts df) (\<lambda>d.
     and_then (getitem d ''YearMonth'') (\<lambda>s.
       Inr (sort_index (groupby_size cell_key (dropna_series s)))))"

definition cum :: "dataframe \<Rightarrow> py_error + nat series" where
  "cum df = and_then (monthly df) (\<lambda>m. Inr (cumsum m))"

subsection \<open>Visualizations 4 and 5: hours and weekdays\<close>

definition hourly :: "dataframe \<Rightarrow> py_error + nat list" where
  "hourly df =
     and_then (getitem df ''Hour'') (\<lambda>s.
     and_then (astype_int (dropna_series s)) (\<lambda>hs. Inr (hist24 hs)))"

definition weekday_counts :: "dataframe \<Rightarrow> py_error + (string \<times> nat) list" where
  "weekday_counts df =
     and_then (getitem df ''Weekday'') (\<lambda>s.
       Inr (fillna 0 (reindex (value_counts s) weekday_order)))"

subsection \<open>Visualizations 7 and 8: spatial sample and hexbin density\<close>

text \<open>
  \<open>sample_scatter\<close> is line 97, for the detected column names \<open>la\<close> and \<open>lo\<close>.
  matplotlib's \<open>hexbin\<close> is a parameter \<open>hb\<close> of the script: it is given the two
  coordinate columns of the sample and the grid size, and gives the density grid or
  raises (on coordinates that are not numbers). \<open>spatial\<close> is the branch of line
  96: without one of the two columns there is no sample and no density.
\<close>

definition sample_scatter ::
  "generator \<Rightarrow> rng_state \<Rightarrow> dataframe \<Rightarrow> string \<Rightarrow> string \<Rightarrow> (py_error + dataframe) \<times> rng_state"
where
  "sample_scatter gen g df la lo =
     (case dropna df [la, lo] of
        Inl e \<Rightarrow> (Inl e, g)
      | Inr d \<Rightarrow> sample gen g d (min 20000 (len df)) (Some 1))"

definition hexbin_view ::
  "(cell list \<Rightarrow> cell list \<Rightarrow> nat \<Rightarrow> py_error + 'h) \<Rightarrow> dataframe \<Rightarrow> string \<Rightarrow> string
     \<Rightarrow> py_error + 'h"
where
  "hexbin_view hb s la lo =
     and_then (getitem s lo) (\<lambda>xs.
     and_then (getitem s la) (\<lambda>ys. hb xs ys 80))"

definition spatial ::
  "generator \<Rightarrow> (cell list \<Rightarrow> cell list \<Rightarrow> nat \<Rightarrow> py_error + 'h) \<Rightarrow> rng_state \<Rightarrow> dataframe
     \<Rightarrow> (py_error + (dataframe \<times> 'h) option) \<times> rng_state"
where
  "spatial gen hb g df =
     (if truthy (lat_col df) \<and> truthy (lon_col df) then
        (case (lat_col df, lon_col df) of
           (Some la, Some lo) \<Rightarrow>
             (case sample_scatter gen g df la lo of
                (Inl e, g') \<Rightarrow> (Inl e, g')
              | (Inr s, g') \<Rightarrow>
                  (case hexbin_view hb s la lo of
                     Inl e \<Rightarrow> (Inl e, g')
                   | Inr h \<Rightarrow> (Inr (Some (s, h)), g')))
         | _ \<Rightarrow> (Inr None, g))
      else (Inr None, g))"

subsection \<open>Visualization 10: daily counts by month\<close>

definition df_ts_date :: "dataframe \<Rightarrow> py_error + dataframe" where
  "df_ts_date df =
     and_then (df_ts df) (\<lambda>d.
     and_then (getitem d ''IncidentDate'') (\<lambda>s.
     and_then (dt d ''IncidentDate'' s) (\<lambda>t. Inr (setitem d ''DateOnly'' (map dt_date t)))))"

type_synonym order_key = "nat \<times> real \<times> string \<times> int \<times> int \<times> int"

definition key3 :: "cell \<times> cell \<times> cell \<Rightarrow> order_key \<times> order_key \<times> order_key" where
  "key3 k = (case k of (y, m, d) \<Rightarrow> (cell_key y, cell_key m, cell_key d))"

definition no_missing_key :: "cell \<times> cell \<times> cell \<Rightarrow> bool" where
  "no_missing_key k = (case k of (y, m, d) \<Rightarrow> y \<noteq> NA \<and> m \<noteq> NA \<and> d \<noteq> NA)"

definition daily_counts :: "dataframe \<Rightarrow> py_error + ((cell \<times> cell \<times> cell) \<times> nat) list" where
  "daily_counts df =
     and_then (df_ts_date df) (\<lambda>d.
     and_then (getitem d ''Year'') (\<lambda>ys.
     and_then (getitem d ''Month'') (\<lambda>ms.
     and_then (getitem d ''DateOnly'') (\<lambda>ds.
       Inr (groupby_size key3 (filter no_missing_key (zip ys (zip ms ds))))))))"

text \<open>\<open>daily_counts['Month'] == m\<close>, elementwise, for an integer \<open>m\<close>.\<close>

fun eq_int :: "cell \<Rightarrow> int \<Rightarrow> bool" where
  "eq_int (Num x) m = (x = of_int m)"
| "eq_int (Bool b) m = (of_bool b = m)"
| "eq_int c m = False"

definition monthly_groups :: "dataframe \<Rightarrow> py_error + nat list list" where
  "monthly_groups df =
     and_then (daily_counts df) (\<lambda>dc.
       Inr (map (\<lambda>m. map snd (filter (\<lambda>kn. eq_int (fst (snd (fst kn))) m) dc)) [1..12]))"

subsection \<open>The whole script\<close>

record 'h views =
  v_top_primary :: "nat series"
  v_arrest_rate :: "cell series"
  v_monthly :: "nat series"
  v_hourly :: "nat list"
  v_weekday_counts :: "(string \<times> nat) list"
  v_loc_top10 :: "nat series"
  v_spatial :: "(dataframe \<times> 'h) option"
  v_cum :: "nat series"
  v_monthly_groups :: "nat list list"

text \<open>Visualizations 1 to 6, in the order of the script.\<close>

definition before_spatial ::
  "dataframe \<Rightarrow> py_error + (nat series \<times> cell series \<times> nat series \<times> nat list \<times> (string \<times> nat) list \<times> nat series)"
where
  "before_spatial df =
     and_then (top_primary df) (\<lambda>tp.
     and_then (arrest_rate df (map fst tp)) (\<lambda>ar.
     and_then (monthly df) (\<lambda>mo.
     and_then (hourly df) (\<lambda>ho.
     and_then (weekday_counts df) (\<lambda>wd.
     and_then (loc_top10 df) (\<lambda>lt. Inr (tp, ar, mo, ho, wd, lt)))))))"

text \<open>Visualizations 9 and 10.\<close>

definition after_spatial :: "dataframe \<Rightarrow> py_error + (nat series \<times> nat list list)" where
  "after_spatial df =
     and_then (cum df) (\<lambda>cu.
     and_then (monthly_groups df) (\<lambda>mg. Inr (cu, mg)))"

definition assemble ::
  "(nat series \<times> cell series \<times> nat series \<times> nat list \<times> (string \<times> nat) list \<times> nat series)
     \<Rightarrow> (dataframe \<times> 'h) option \<Rightarrow> (nat series \<times> nat list list) \<Rightarrow> 'h views"
where
  "assemble a s b =
     (case a of (tp, ar, mo, ho, wd, lt) \<Rightarrow>
      case b of (cu, mg) \<Rightarrow>
        \<lparr>v_top_primary = tp, v_arrest_rate = ar, v_monthly = mo, v_hourly = ho,
         v_weekday_counts = wd, v_loc_top10 = lt, v_spatial = s, v_cum = cu,
         v_monthly_groups = mg\<rparr>)"

text \<open>
  A run of the script on the loaded table, from a state of the global generator: the
  views, or the first exception raised, and the state of the generator at the end. The
  plotting calls between the views (\<open>bar\<close>, \<open>plot\<close>, \<open>scatter\<close>, \<open>boxplot\<close>,
  \<open>save_fig\<close>) draw what they are given and compute no view; they are not modelled.
\<close>

definition run ::
  "generator \<Rightarrow> (cell list \<Rightarrow> cell list \<Rightarrow> nat \<Rightarrow> py_error + 'h) \<Rightarrow> rng_state \<Rightarrow> dataframe
     \<Rightarrow> (py_error + 'h views) \<times> rng_state"
where
  "run gen hb g df0 =
     (case ensure_temporal_fields df0 of
        Inl e \<Rightarrow> (Inl e, g)
      | Inr df \<Rightarrow>
     (case before_spatial df of
        Inl e \<Rightarrow> (Inl e, g)
      | Inr a \<Rightarrow>
     (case spatial gen hb g df of
        (Inl e, g') \<Rightarrow> (Inl e, g')
      | (Inr s, g') \<Rightarrow>
     (case after_spatial df of
        Inl e \<Rightarrow> (Inl e, g')
      | Inr b \<Rightarrow> (Inr (assemble a s b), g')))))"

section \<open>Notions of the specification\<close>

text \<open>The rows with a non-null timestamp, and the month keys of those rows.\<close>

definition with_timestamp :: "dataframe \<Rightarrow> row list" where
  "with_timestamp df = filter (\<lambda>r. r ''IncidentDate'' \<noteq> NA) (rows df)"

definition month_keys :: "dataframe \<Rightarrow> cell list" where
  "month_keys df = map (\<lambda>r. dt_to_period_M_to_timestamp (r ''IncidentDate''))
                    (filter (\<lambda>r. r ''IncidentDate'' \<noteq> NA) (rows df))"

section \<open>An example table\<close>

text \<open>
  Four incidents: two thefts in January 2015 (one without coordinates), a battery in
  March 2015, and a record with neither category nor timestamp. The timestamps are
  2015-01-05 10:00, 2015-01-20 23:30 and 2015-03-02 00:00.
\<close>

definition mk_row :: "(string \<times> cell) list \<Rightarrow> row" where
  "mk_row kvs c = (case map_of kvs c of Some v \<Rightarrow> v | None \<Rightarrow> NA)"

definition example_columns :: "string list" where
  "example_columns =
     [''Primary Type'', ''Location Description'', ''Arrest'', ''IncidentDate'',
      ''Latitude'', ''Longitude'']"

definition example_rows :: "row list" where
  "example_rows =
     [mk_row [(''Primary Type'', Str ''THEFT''), (''Location Description'', Str ''STREET''),
              (''Arrest'', Bool True), (''IncidentDate'', Time 1420452000000000000),
              (''Latitude'', Num 41.8), (''Longitude'', Num (-87.6))],
      mk_row [(''Primary Type'', Str ''BATTERY''), (''Location Description'', Str ''RESIDENCE''),
              (''Arrest'', Bool True), (''IncidentDate'', Time 1425254400000000000),
              (''Latitude'', Num 41.9), (''Longitude'', Num (-87.7))],
      mk_row [(''Primary Type'', Str ''THEFT''), (''Location Description'', Str ''STREET''),
              (''Arrest'', Bool False), (''IncidentDate'', Time 1421796600000000000)],
      mk_row [(''Arrest'', Bool False), (''Latitude'', Num 41.7), (''Longitude'', Num (-87.5))]]"

definition example_df :: dataframe where
  "example_df =
     \<lparr>columns = example_columns, datetimes = [''IncidentDate''], rows = example_rows\<rparr>"

section \<open>Further notions and tables\<close>

text \<open>
  The rows with a non-null weekday; a table that already has the temporal fields (its
  second row has no month and the weekday name \<open>Tue\<close>); the fields the normalizer
  derives for a row; and a table whose timestamp column \<open>read_csv\<close> could not parse
  (the second value is not a date, so the whole column is left as strings).
\<close>

definition with_weekday :: "dataframe \<Rightarrow> row list" where
  "with_weekday df = filter (\<lambda>r. r ''Weekday'' \<noteq> NA) (rows df)"

definition precomputed_df :: dataframe where
  "precomputed_df =
     \<lparr>columns = [''Primary Type'', ''Location Description'', ''Arrest'', ''IncidentDate'',
                 ''Year'', ''Month'', ''Day'', ''Hour'', ''Weekday''],
      datetimes = [''IncidentDate''],
      rows = [mk_row [(''Primary Type'', Str ''THEFT''), (''Location Description'', Str ''STREET''),
                      (''Arrest'', Bool True), (''IncidentDate'', Time 1420452000000000000),
                      (''Year'', Num 2015), (''Month'', Num 1), (''Day'', Num 5),
                      (''Hour'', Num 10), (''Weekday'', Str ''Monday'')],
              mk_row [(''Primary Type'', Str ''BATTERY''),
                      (''Location Description'', Str ''RESIDENCE''),
                      (''Arrest'', Bool False), (''IncidentDate'', Time 1421796600000000000),
                      (''Year'', Num 2015), (''Day'', Num 20), (''Hour'', Num 23),
                      (''Weekday'', Str ''Tue'')]]\<rparr>"

definition derive :: "row \<Rightarrow> row" where
  "derive r =
     r(''Year'' := dt_year (r ''IncidentDate''),
       ''Month'' := dt_month (r ''IncidentDate''),
       ''Day'' := dt_day (r ''IncidentDate''),
       ''Hour'' := dt_hour (r ''IncidentDate''),
       ''Weekday'' := dt_day_name (r ''IncidentDate''))"

definition temporal_fields :: "string list" where
  "temporal_fields = [''Year'', ''Month'', ''Day'', ''Hour'', ''Weekday'']"

definition add_column :: "string list \<Rightarrow> string \<Rightarrow> string list" where
  "add_column cs c = (if c \<in> set cs then cs else cs @ [c])"

definition unparsed_df :: dataframe where
  "unparsed_df =
     \<lparr>columns = [''Primary Type'', ''Location Description'', ''Arrest'', ''IncidentDate''],
      datetimes = [],
      rows = [mk_row [(''Primary Type'', Str ''THEFT''), (''Location Description'', Str ''STREET''),
                      (''Arrest'', Bool True),
                      (''IncidentDate'', Str ''01/05/2015 10:00:00 AM'')],
              mk_row [(''Primary Type'', Str ''BATTERY''),
                      (''Location Description'', Str ''RESIDENCE''),
                      (''Arrest'', Bool False), (''IncidentDate'', Str ''unknown'')]]\<rparr>"

text \<open>
  The rows of a category, the arithmetic mean of the arrest field over them, and a table
  of 100 incidents: 60 thefts, 30 of them with an arrest, and 40 batteries.
\<close>

definition category_rows :: "dataframe \<Rightarrow> cell \<Rightarrow> row list" where
  "category_rows df c = filter (\<lambda>r. r ''Primary Type'' = c) (rows df)"

definition arrest_mean :: "dataframe \<Rightarrow> cell \<Rightarrow> real" where
  "arrest_mean df c =
     sum_list (map (\<lambda>r. num_val (r ''Arrest'')) (category_rows df c))
       / real (length (category_rows df c))"

definition theft_df :: dataframe where
  "theft_df =
     \<lparr>columns = [''Primary Type'', ''Arrest''],
      datetimes = [],
      rows = replicate 30 (mk_row [(''Primary Type'', Str ''THEFT''), (''Arrest'', Bool True)])
           @ replicate 30 (mk_row [(''Primary Type'', Str ''THEFT''), (''Arrest'', Bool False)])
           @ replicate 40 (mk_row [(''Primary Type'', Str ''BATTERY''), (''Arrest'', Bool False)])\<rparr>"



text \<open>
  The non-spatial views of a run on their own; the rows with both coordinates; the
  fields every input must have, with a timestamp column of timestamps and a boolean
  arrest column; a table without coordinate columns; a generator and a hexbin function
  to run the script with; and the generators whose draws are permutations.
\<close>

definition non_spatial_views ::
  "dataframe \<Rightarrow> py_error +
     ((nat series \<times> cell series \<times> nat series \<times> nat list \<times> (string \<times> nat) list \<times> nat series)
      \<times> (nat series \<times> nat list list))"
where
  "non_spatial_views df0 =
     and_then (ensure_temporal_fields df0) (\<lambda>df.
     and_then (before_spatial df) (\<lambda>a.
     and_then (after_spatial df) (\<lambda>b. Inr (a, b))))"

definition with_coordinates :: "dataframe \<Rightarrow> string \<Rightarrow> string \<Rightarrow> row list" where
  "with_coordinates df la lo = filter (\<lambda>r. r la \<noteq> NA \<and> r lo \<noteq> NA) (rows df)"

fun is_bool :: "cell \<Rightarrow> bool" where
  "is_bool (Bool b) = True"
| "is_bool c = False"

fun is_number :: "cell \<Rightarrow> bool" where
  "is_number (Num x) = True"
| "is_number c = False"

definition required_fields :: "dataframe \<Rightarrow> bool" where
  "required_fields df \<longleftrightarrow>
     set [''Primary Type'', ''Location Description'', ''Arrest'', ''IncidentDate'']
       \<subseteq> set (columns df) \<and>
     ''IncidentDate'' \<in> set (datetimes df) \<and>
     list_all (\<lambda>r. datetimelike (r ''IncidentDate'') \<and> is_bool (r ''Arrest'')) (rows df) \<and>
     (''Year'' \<in> set (columns df) \<longrightarrow>
        set [''Month'', ''Hour'', ''Weekday''] \<subseteq> set (columns df) \<and>
        list_all (\<lambda>r. r ''Hour'' = NA \<or> is_number (r ''Hour'')) (rows df))"

definition plain_df :: dataframe where
  "plain_df =
     \<lparr>columns = [''Primary Type'', ''Location Description'', ''Arrest'', ''IncidentDate''],
      datetimes = [''IncidentDate''],
      rows =
        [mk_row [(''Primary Type'', Str ''THEFT''), (''Location Description'', Str ''STREET''),
                 (''Arrest'', Bool True), (''IncidentDate'', Time 1420452000000000000)],
         mk_row [(''Primary Type'', Str ''BATTERY''), (''Location Description'', Str ''RESIDENCE''),
                 (''Arrest'', Bool False), (''IncidentDate'', Time 1425254400000000000)],
         mk_row [(''Primary Type'', Str ''THEFT''), (''Arrest'', Bool False)]]\<rparr>"

definition example_generator :: generator where
  "example_generator = \<lparr>seed_state = nat, draw = (\<lambda>g n. (rev [0..<n], Suc g))\<rparr>"

definition example_hexbin :: "cell list \<Rightarrow> cell list \<Rightarrow> nat \<Rightarrow> py_error + nat" where
  "example_hexbin xs ys gridsize = Inr (length xs)"

definition proper_generator :: "generator \<Rightarrow> bool" where
  "proper_generator gen \<longleftrightarrow>
     (\<forall>s N. distinct (fst (draw gen s N)) \<and> set (fst (draw gen s N)) = {..<N})"

section \<open>Facts about the pandas operations\<close>

lemma and_then_Inr_iff:
  "and_then r f = Inr y \<longleftrightarrow> (\<exists>x. r = Inr x \<and> f x = Inr y)"
  by (cases r) (auto simp: and_then_def)

lemma and_then_Inr [simp]: "and_then (Inr x) f = f x"
  by (simp add: and_then_def)

lemma and_then_Inl [simp]: "and_then (Inl e) f = Inl e"
  by (simp add: and_then_def)

lemma getitem_Inr_iff:
  "getitem df c = Inr s \<longleftrightarrow> c \<in> set (columns df) \<and> s = map (\<lambda>r. r c) (rows df)"
  by (auto simp: getitem_def)

lemma set_first_seen [simp]: "set (first_seen xs) = set xs"
  by (simp add: first_seen_def)

lemma distinct_first_seen [simp]: "distinct (first_seen xs)"
  by (simp add: first_seen_def)

lemma set_value_counts:
  "set (value_counts s) = (\<lambda>k. (k, count_list (dropna_series s) k)) ` set (dropna_series s)"
  by (simp add: value_counts_def Let_def)

lemma mset_value_counts:
  "mset (value_counts s) =
     mset (map (\<lambda>k. (k, count_list (dropna_series s) k)) (first_seen (dropna_series s)))"
  by (simp add: value_counts_def Let_def)

lemma distinct_keys_value_counts: "distinct (map fst (value_counts s))"
proof -
  have "mset (map fst (value_counts s)) = mset (first_seen (dropna_series s))"
    using mset_value_counts [of s] by (metis (no_types, lifting) mset_map map_map comp_def fst_conv map_idI)
  then show ?thesis
    by (metis distinct_first_seen mset_eq_imp_distinct_iff)
qed

lemma sum_count_list_distinct:
  "distinct ks \<Longrightarrow> set ks = set xs \<Longrightarrow> sum_list (map (count_list xs) ks) = length xs"
  by (metis sum_list_distinct_conv_sum_set sum_count_set List.finite_set order_refl)

lemma sum_value_counts: "sum_list (map snd (value_counts s)) = length (dropna_series s)"
proof -
  let ?vs = "dropna_series s"
  have "mset (map snd (value_counts s)) = mset (map (count_list ?vs) (first_seen ?vs))"
    using mset_value_counts [of s] by (metis (no_types, lifting) mset_map map_map comp_def snd_conv map_eq_conv)
  then have "sum_list (map snd (value_counts s)) = sum_list (map (count_list ?vs) (first_seen ?vs))"
    by (metis sum_mset_sum_list)
  then show ?thesis by (simp add: sum_count_list_distinct)
qed

lemma sorted_value_counts: "sorted (map (\<lambda>kn. - int (snd kn)) (value_counts s))"
proof -
  have "(\<lambda>kn::cell \<times> nat. - int (snd kn)) = (\<lambda>(k, n). - int n)" by auto
  then show ?thesis by (simp add: value_counts_def Let_def)
qed

lemma descending_value_counts: "sorted_wrt (\<lambda>a b. a \<ge> b) (map snd (value_counts s))"
proof -
  have "sorted_wrt (\<lambda>a b. - int (snd a) \<le> - int (snd b)) (value_counts s)"
    using sorted_value_counts [of s] by (simp add: sorted_map)
  then have "sorted_wrt (\<lambda>a b. snd a \<ge> snd b) (value_counts s)"
    by (rule sorted_wrt_mono_rel [rotated]) simp
  then show ?thesis by (simp add: sorted_wrt_map)
qed

lemma count_list_dropna: "k \<noteq> NA \<Longrightarrow> count_list (dropna_series s) k = count_list s k"
  by (induction s) (auto simp: dropna_series_def)

lemma count_list_column: "count_list (map f xs) k = length (filter (\<lambda>x. f x = k) xs)"
  by (induction xs) auto

lemma sum_list_take_le: "sum_list (take n (xs::nat list)) \<le> sum_list xs"
proof -
  have "sum_list (take n xs) + sum_list (drop n xs) = sum_list xs"
    by (metis append_take_drop_id sum_list_append)
  then show ?thesis by linarith
qed

lemma length_dropna_series_le: "length (dropna_series s) \<le> length s"
  by (simp add: dropna_series_def)

lemma ranking_props:
  assumes "getitem df c = Inr s" and "v = head 10 (value_counts s)"
  shows "length v \<le> 10"
    and "NA \<notin> fst ` set v"
    and "distinct (map fst v)"
    and "sorted_wrt (\<lambda>a b. a \<ge> b) (map snd v)"
    and "\<forall>(k, n) \<in> set v. n = length (filter (\<lambda>r. r c = k) (rows df)) \<and> 0 < n"
    and "sum_list (map snd v) \<le> len df"
proof -
  have s: "s = map (\<lambda>r. r c) (rows df)"
    using assms(1) by (simp add: getitem_Inr_iff)
  have sub: "set v \<subseteq> set (value_counts s)"
    using assms(2) by (simp add: head_def set_take_subset)
  show "length v \<le> 10" using assms(2) by (simp add: head_def)
  show "NA \<notin> fst ` set v"
    using sub by (auto simp: set_value_counts dropna_series_def)
  show "distinct (map fst v)"
    using assms(2) distinct_keys_value_counts [of s]
    by (simp add: head_def take_map [symmetric] distinct_take)
  show "sorted_wrt (\<lambda>a b. a \<ge> b) (map snd v)"
    using assms(2) descending_value_counts [of s]
    by (simp add: head_def take_map [symmetric] sorted_wrt_take)
  show "\<forall>(k, n) \<in> set v. n = length (filter (\<lambda>r. r c = k) (rows df)) \<and> 0 < n"
  proof (clarify, rule conjI)
    fix k n assume "(k, n) \<in> set v"
    then have kn: "(k, n) \<in> set (value_counts s)" using sub by blast
    then have k: "k \<in> set (dropna_series s)" and n: "n = count_list (dropna_series s) k"
      by (auto simp: set_value_counts)
    from k have "k \<noteq> NA" by (simp add: dropna_series_def)
    then show "n = length (filter (\<lambda>r. r c = k) (rows df))"
      using n by (simp add: count_list_dropna s count_list_column)
    show "0 < n" using k n count_list_0_iff [of "dropna_series s" k] by simp
  qed
  have "sum_list (map snd v) \<le> sum_list (map snd (value_counts s))"
    using assms(2) by (simp add: head_def take_map [symmetric] sum_list_take_le)
  also have "\<dots> \<le> length s"
    by (simp add: sum_value_counts length_dropna_series_le)
  finally show "sum_list (map snd v) \<le> len df" by (simp add: s len_def)
qed


lemma top_primary_example:
  "top_primary example_df = Inr [(Str ''THEFT'', 2), (Str ''BATTERY'', 1)]"
  by code_simp

lemma loc_top10_example:
  "loc_top10 example_df = Inr [(Str ''STREET'', 2), (Str ''RESIDENCE'', 1)]"
  by code_simp

subsection \<open>The calendar\<close>

text \<open>
  The date of a day number and the day number of a date are inverse to each other: a
  date determines its day, and the first day of a month has the date it was computed
  from.
\<close>

lemma doy_range: "0 \<le> doq \<Longrightarrow> doq \<le> 1460 \<Longrightarrow> 0 \<le> doy_of_doq doq \<and> doy_of_doq doq \<le> 365"
  unfolding doy_of_doq_def min_def by (cases "doq div 365 \<ge> 3") (simp_all, linarith+)



lemma divmod_parts:
  fixes b :: int
  assumes "0 \<le> r" and "r < b"
  shows "(n * b + r) div b = n" and "(n * b + r) mod b = r"
  using assms by (simp_all add: div_pos_pos_trivial)

lemma month_of_doy_bounds: "0 \<le> (5 * doy + 2) div 153 \<and> (5 * doy + 2) div 153 \<le> 11"
  if "0 \<le> doy" "doy \<le> 365" for doy :: int
  using that by auto

lemma month_day_roundtrip:
  assumes "0 \<le> doy" and "doy \<le> 365"
  shows "(153 * (if month_of_doy doy > 2 then month_of_doy doy - 3 else month_of_doy doy + 9) + 2)
           div 5 + day_of_doy doy - 1 = doy"
proof -
  define mp where "mp = (5 * doy + 2) div 153"
  have b: "0 \<le> mp" "mp \<le> 11"
    using month_of_doy_bounds [OF assms] unfolding mp_def by blast+
  have m: "month_of_doy doy = (if mp < 10 then mp + 3 else mp - 9)"
    by (simp add: month_of_doy_def mp_def)
  have d: "day_of_doy doy = doy - (153 * mp + 2) div 5 + 1"
    by (simp add: day_of_doy_def mp_def)
  have "(if month_of_doy doy > 2 then month_of_doy doy - 3 else month_of_doy doy + 9) = mp"
    unfolding m using b by auto
  then show ?thesis unfolding d by simp
qed

lemma day_of_doy_ge: "0 \<le> doy \<Longrightarrow> 1 \<le> day_of_doy doy"
  unfolding day_of_doy_def Let_def by linarith

lemma yoe_div:
  fixes c q a :: int
  assumes "0 \<le> q" "q \<le> 24" "0 \<le> a" "a \<le> 3"
  shows "(c * 100 + q * 4 + a) div 4 = c * 25 + q" and "(c * 100 + q * 4 + a) div 100 = c"
proof -
  have "c * 100 + q * 4 + a = (c * 25 + q) * 4 + a" by simp
  then show "(c * 100 + q * 4 + a) div 4 = c * 25 + q"
    using divmod_parts(1) [of a 4 "c * 25 + q"] assms by simp
  have "c * 100 + q * 4 + a = c * 100 + (q * 4 + a)" by simp
  moreover have "0 \<le> q * 4 + a" "q * 4 + a < 100" using assms by simp_all
  ultimately show "(c * 100 + q * 4 + a) div 100 = c"
    using divmod_parts(1) [of "q * 4 + a" 100 c] by simp
qed

lemma days_from_parts:
  assumes "0 \<le> c" "c \<le> 3" "0 \<le> q" "q \<le> 24" "0 \<le> a" "a \<le> 3"
  shows "days_from_civil (era * 400 + c * 100 + q * 4 + a + (if m \<le> 2 then 1 else 0)) m d =
           era * 146097 + c * 36524 + q * 1461 + a * 365
             + ((153 * (if m > 2 then m - 3 else m + 9) + 2) div 5 + d - 1) - 719468"
proof -
  define yoe where "yoe = c * 100 + q * 4 + a"
  have y: "(if m \<le> 2 then era * 400 + c * 100 + q * 4 + a + (if m \<le> 2 then 1 else 0) - 1
           else era * 400 + c * 100 + q * 4 + a + (if m \<le> 2 then 1 else 0)) = era * 400 + yoe"
    by (simp add: yoe_def)
  have b: "0 \<le> yoe" "yoe < 400" using assms by (simp_all add: yoe_def)
  have e: "(era * 400 + yoe) div 400 = era" using divmod_parts(1) [OF b] .
  have r: "era * 400 + yoe - era * 400 = yoe" by simp
  have d4: "yoe div 4 = c * 25 + q" and d100: "yoe div 100 = c"
    unfolding yoe_def using yoe_div [OF assms(3-6)] by simp_all
  have "days_from_civil (era * 400 + c * 100 + q * 4 + a + (if m \<le> 2 then 1 else 0)) m d =
      era * 146097 + (yoe * 365 + yoe div 4 - yoe div 100
        + ((153 * (if m > 2 then m - 3 else m + 9) + 2) div 5 + d - 1)) - 719468"
    by (simp only: days_from_civil_def Let_def y e r)
  also have "\<dots> = era * 146097 + c * 36524 + q * 1461 + a * 365
             + ((153 * (if m > 2 then m - 3 else m + 9) + 2) div 5 + d - 1) - 719468"
    unfolding d4 d100 by (simp add: yoe_def)
  finally show ?thesis .
qed

lemma civil_parts:
  "\<exists>era c q a doy. 0 \<le> c \<and> c \<le> 3 \<and> 0 \<le> q \<and> q \<le> 24 \<and> 0 \<le> a \<and> a \<le> 3 \<and>
     0 \<le> doy \<and> doy \<le> 365 \<and>
     z = era * 146097 + c * 36524 + q * 1461 + a * 365 + doy - 719468 \<and>
     civil_from_days z =
       (era * 400 + c * 100 + q * 4 + a + (if month_of_doy doy \<le> 2 then 1 else 0),
        month_of_doy doy, day_of_doy doy)"
proof -
  define era where "era = (z + 719468) div 146097"
  define doe where "doe = (z + 719468) mod 146097"
  define c where "c = min 3 (doe div 36524)"
  define doc where "doc = doe - c * 36524"
  define q where "q = doc div 1461"
  define doq where "doq = doc mod 1461"
  define a where "a = min 3 (doq div 365)"
  define doy where "doy = doy_of_doq doq"
  have cf: "civil_from_days z =
       (era * 400 + c * 100 + q * 4 + a + (if month_of_doy doy \<le> 2 then 1 else 0),
        month_of_doy doy, day_of_doy doy)"
    unfolding civil_from_days_def Let_def doy_def a_def doq_def q_def doc_def c_def doe_def era_def
    by (rule refl)
  have doe: "0 \<le> doe" "doe \<le> 146096" by (simp_all add: doe_def) 
  have z: "z + 719468 = era * 146097 + doe" by (simp add: era_def doe_def)
  have cb: "0 \<le> c" "c \<le> 3" using doe(1) by (simp_all add: c_def pos_imp_zdiv_nonneg_iff)
  have docb: "0 \<le> doc" "doc \<le> 36524"
  proof -
    show "0 \<le> doc"
    proof (cases "doe div 36524 \<le> 3")
      case True
      then have "c = doe div 36524" by (simp add: c_def)
      then have "doc = doe mod 36524" unfolding doc_def by (simp add: minus_div_mult_eq_mod)
      then show ?thesis by simp
    next
      case False
      then have "c = 3" by (simp add: c_def)
      from False have "4 \<le> doe div 36524" by simp
      moreover have "doe = doe div 36524 * 36524 + doe mod 36524" by simp
      moreover have "0 \<le> doe mod 36524" by simp
      ultimately have "4 * 36524 \<le> doe" by linarith
      moreover note \<open>c = 3\<close>
      ultimately show ?thesis using doc_def by simp
    qed
    show "doc \<le> 36524"
    proof (cases "doe div 36524 \<le> 3")
      case True
      then have "c = doe div 36524" by (simp add: c_def)
      then have "doc = doe mod 36524" unfolding doc_def by (simp add: minus_div_mult_eq_mod)
      moreover have "doe mod 36524 < 36524" by simp
      ultimately show ?thesis by linarith
    next
      case False
      then have "c = 3" by (simp add: c_def)
      then show ?thesis using doe(2) doc_def by simp
    qed
  qed
  have qb: "0 \<le> q" "q \<le> 24"
  proof -
    show "0 \<le> q" unfolding q_def using docb(1) by (simp add: pos_imp_zdiv_nonneg_iff)
    have "doc div 1461 \<le> 36524 div 1461" using docb(2) by (rule zdiv_mono1) simp
    then show "q \<le> 24" by (simp add: q_def)
  qed
  have doqb: "0 \<le> doq" "doq \<le> 1460"
  proof -
    show "0 \<le> doq" by (simp add: doq_def)
    have "doq < 1461" by (simp add: doq_def)
    then show "doq \<le> 1460" by linarith
  qed
  have ab: "0 \<le> a" "a \<le> 3" using doqb(1) by (simp_all add: a_def pos_imp_zdiv_nonneg_iff)
  have doyb: "0 \<le> doy" "doy \<le> 365" using doy_range [OF doqb] by (simp_all add: doy_def)
  have s1: "doe = c * 36524 + doc" by (simp add: doc_def)
  have s2: "doc = q * 1461 + doq" by (simp add: q_def doq_def)
  have s3: "doq = a * 365 + doy" by (simp add: doy_def doy_of_doq_def a_def)
  have "z = era * 146097 + c * 36524 + q * 1461 + a * 365 + doy - 719468"
    using z s1 s2 s3 by linarith
  with cb qb ab doyb cf show ?thesis by blast
qed

text \<open>The day number of the date of a day number is that day number.\<close>

lemma days_from_civil_inverse:
  "days_from_civil (fst (civil_from_days z)) (fst (snd (civil_from_days z)))
     (snd (snd (civil_from_days z))) = z"
proof -
  from civil_parts [of z] obtain era c q a doy where
    b: "0 \<le> c" "c \<le> 3" "0 \<le> q" "q \<le> 24" "0 \<le> a" "a \<le> 3"
    and d: "0 \<le> doy" "doy \<le> 365"
    and z: "z = era * 146097 + c * 36524 + q * 1461 + a * 365 + doy - 719468"
    and cf: "civil_from_days z =
       (era * 400 + c * 100 + q * 4 + a + (if month_of_doy doy \<le> 2 then 1 else 0),
        month_of_doy doy, day_of_doy doy)"
    by blast
  show ?thesis
    unfolding cf fst_conv snd_conv days_from_parts [OF b] month_day_roundtrip [OF d]
    using z by simp
qed

lemma civil_from_parts:
  assumes "0 \<le> c" "c \<le> 3" "0 \<le> q" "q \<le> 24" "0 \<le> a" "a \<le> 3" "0 \<le> doy" "doy \<le> 364"
  shows "civil_from_days (era * 146097 + c * 36524 + q * 1461 + a * 365 + doy - 719468) =
       (era * 400 + c * 100 + q * 4 + a + (if month_of_doy doy \<le> 2 then 1 else 0),
        month_of_doy doy, day_of_doy doy)"
proof -
  define doq where "doq = a * 365 + doy"
  define doc where "doc = q * 1461 + doq"
  define doe where "doe = c * 36524 + doc"
  have b: "0 \<le> doq" "doq < 1461" "0 \<le> doc" "doc < 36524" "0 \<le> doe" "doe < 146097"
    using assms by (simp_all add: doq_def doc_def doe_def)
  have z: "era * 146097 + c * 36524 + q * 1461 + a * 365 + doy - 719468 + 719468
      = era * 146097 + doe"
    by (simp add: doq_def doc_def doe_def)
  have 1: "(era * 146097 + doe) div 146097 = era" "(era * 146097 + doe) mod 146097 = doe"
    using divmod_parts [OF b(5,6)] by simp_all
  have 2: "doe div 36524 = c" "doe mod 36524 = doc"
    unfolding doe_def using divmod_parts [OF b(3,4)] by simp_all
  have c2: "min 3 c = c" "doe - c * 36524 = doc" using assms(2) by (simp_all add: doe_def)
  have 3: "doc div 1461 = q" "doc mod 1461 = doq"
    unfolding doc_def using divmod_parts [OF b(1,2)] by simp_all
  have "0 \<le> doy" "doy < 365" using assms by simp_all
  then have 4: "doq div 365 = a" unfolding doq_def using divmod_parts(1) by blast
  have c4: "min 3 a = a" using assms(6) by simp
  have 5: "doy_of_doq doq = doy" unfolding doy_of_doq_def 4 c4 by (simp add: doq_def)
  show ?thesis
    by (simp only: civil_from_days_def Let_def z 1 2 c2 3 4 c4 5)
qed

lemma first_of_month:
  assumes "1 \<le> m" and "m \<le> 12"
  shows "month_of_doy ((153 * (if m > 2 then m - 3 else m + 9) + 2) div 5) = m"
    and "day_of_doy ((153 * (if m > 2 then m - 3 else m + 9) + 2) div 5) = 1"
    and "0 \<le> (153 * (if m > 2 then m - 3 else m + 9) + 2) div 5"
    and "(153 * (if m > 2 then m - 3 else m + 9) + 2) div 5 \<le> 364"
proof -
  from assms have "m \<in> {1, 2, 3, 4, 5, 6, 7, 8, 9, 10, 11, 12}" by (simp, arith)
  then show "month_of_doy ((153 * (if m > 2 then m - 3 else m + 9) + 2) div 5) = m"
    and "day_of_doy ((153 * (if m > 2 then m - 3 else m + 9) + 2) div 5) = 1"
    and "0 \<le> (153 * (if m > 2 then m - 3 else m + 9) + 2) div 5"
    and "(153 * (if m > 2 then m - 3 else m + 9) + 2) div 5 \<le> 364"
    by (auto simp: month_of_doy_def day_of_doy_def)
qed

text \<open>The date of the first day of a month is the first of that month.\<close>

lemma civil_from_days_first:
  assumes "1 \<le> m" and "m \<le> 12"
  shows "civil_from_days (days_from_civil y m 1) = (y, m, 1)"
proof -
  define y1 where "y1 = (if m \<le> 2 then y - 1 else y)"
  define era where "era = y1 div 400"
  define yoe where "yoe = y1 mod 400"
  define c where "c = yoe div 100"
  define r where "r = yoe mod 100"
  define q where "q = r div 4"
  define a where "a = r mod 4"
  define doy where "doy = (153 * (if m > 2 then m - 3 else m + 9) + 2) div 5"
  have yb: "0 \<le> yoe" "yoe < 400" by (simp_all add: yoe_def)
  have cb: "0 \<le> c" "c \<le> 3"
  proof -
    show "0 \<le> c" unfolding c_def using yb(1) by (simp add: pos_imp_zdiv_nonneg_iff)
    have "yoe div 100 \<le> 399 div 100" using yb(2) by (intro zdiv_mono1) simp_all
    then show "c \<le> 3" by (simp add: c_def)
  qed
  have rb: "0 \<le> r" "r < 100" by (simp_all add: r_def)
  have qb: "0 \<le> q" "q \<le> 24"
  proof -
    show "0 \<le> q" unfolding q_def using rb(1) by (simp add: pos_imp_zdiv_nonneg_iff)
    have "r div 4 \<le> 99 div 4" using rb(2) by (intro zdiv_mono1) simp_all
    then show "q \<le> 24" by (simp add: q_def)
  qed
  have ab: "0 \<le> a" "a \<le> 3"
  proof -
    show "0 \<le> a" by (simp add: a_def)
    have "a < 4" by (simp add: a_def)
    then show "a \<le> 3" by linarith
  qed
  have "y1 = era * 400 + yoe" by (simp add: era_def yoe_def)
  moreover have "yoe = c * 100 + r" by (simp add: c_def r_def)
  moreover have "r = q * 4 + a" by (simp add: q_def a_def)
  ultimately have y1: "y1 = era * 400 + c * 100 + q * 4 + a" by linarith
  then have y: "y = era * 400 + c * 100 + q * 4 + a + (if m \<le> 2 then 1 else 0)"
    by (simp add: y1_def split: if_splits)
  note f = first_of_month [OF assms, folded doy_def]
  have "days_from_civil y m 1 =
      era * 146097 + c * 36524 + q * 1461 + a * 365 + doy - 719468"
    unfolding doy_def by (subst y, subst days_from_parts [OF cb qb ab]) simp
  then have "civil_from_days (days_from_civil y m 1) =
      (era * 400 + c * 100 + q * 4 + a + (if month_of_doy doy \<le> 2 then 1 else 0),
        month_of_doy doy, day_of_doy doy)"
    using civil_from_parts [OF cb qb ab f(3,4)] by simp
  then show ?thesis unfolding f(1,2) using y by simp
qed

subsection \<open>Grouping, monthly counts and running sums\<close>

lemma map_fst_groupby_size [simp]: "map fst (groupby_size ord ks) = group_keys ord ks"
  by (simp add: groupby_size_def comp_def)

lemma set_group_keys [simp]: "set (group_keys ord ks) = set ks"
  by (simp add: group_keys_def)

lemma distinct_group_keys [simp]: "distinct (group_keys ord ks)"
  by (simp add: group_keys_def)

lemma sorted_group_keys [simp]: "sorted (map ord (group_keys ord ks))"
  by (simp add: group_keys_def)

lemma set_groupby_size:
  "set (groupby_size ord ks) = (\<lambda>k. (k, count_list ks k)) ` set ks"
  by (simp add: groupby_size_def)

lemma sum_groupby_size: "sum_list (map snd (groupby_size ord ks)) = length ks"
  by (simp add: groupby_size_def comp_def sum_count_list_distinct)

lemma groupby_size_positive: "(k, n) \<in> set (groupby_size ord ks) \<Longrightarrow> 0 < n"
  using count_list_0_iff [of ks k] by (auto simp: set_groupby_size)

lemma sort_index_groupby_size [simp]:
  "sort_index (groupby_size cell_key ks) = groupby_size cell_key ks"
proof -
  have "map (\<lambda>kv. cell_key (fst kv)) (groupby_size cell_key ks)
          = map cell_key (map fst (groupby_size cell_key ks))"
    by (simp only: map_map comp_def)
  then have "sorted (map (\<lambda>kv. cell_key (fst kv)) (groupby_size cell_key ks))"
    by (simp only: map_fst_groupby_size sorted_group_keys)
  then show ?thesis
    unfolding sort_index_def by (rule sort_key_id_if_sorted)
qed

lemma inj_cell_key: "inj cell_key"
proof (rule injI)
  fix a b assume "cell_key a = cell_key b"
  then show "a = b" by (cases a; cases b) (auto split: if_splits)
qed

lemma strictly_sorted_group_keys:
  "sorted_wrt (\<lambda>a b. cell_key a < cell_key b) (group_keys cell_key ks)"
proof -
  have "distinct (map cell_key (group_keys cell_key ks))"
    by (simp add: distinct_map inj_on_subset [OF inj_cell_key])
  then have "sorted_wrt (<) (map cell_key (group_keys cell_key ks))"
    using sorted_group_keys [of cell_key ks] by (simp add: strict_sorted_iff)
  then show ?thesis by (simp add: sorted_wrt_map)
qed

lemma length_setitem_rows:
  "length s = length (rows df) \<Longrightarrow> rows (setitem df c s) = map (\<lambda>(r, v). r(c := v)) (zip (rows df) s)"
  by (simp add: setitem_def)

lemma getitem_setitem_same:
  "length s = length (rows df) \<Longrightarrow> getitem (setitem df c s) c = Inr s"
  by (auto simp: getitem_def setitem_def map_snd_zip comp_def case_prod_beta intro: nth_equalityI)

lemma getitem_setitem_other:
  "c' \<noteq> c \<Longrightarrow> length s = length (rows df) \<Longrightarrow> getitem (setitem df c s) c' = getitem df c'"
  by (auto simp: getitem_def setitem_def comp_def case_prod_beta intro: nth_equalityI)

lemma dropna_single:
  "dropna df [c] = (if c \<in> set (columns df)
     then Inr (df\<lparr>rows := filter (\<lambda>r. r c \<noteq> NA) (rows df)\<rparr>) else Inl (KeyError c))"
  by (simp add: dropna_def)

lemma dt_Inr_iff:
  "dt df c s = Inr t \<longleftrightarrow> c \<in> set (datetimes df) \<and> list_all datetimelike s \<and> t = s"
  by (auto simp: dt_def)

lemma rows_setitem_datetime [simp]: "rows (setitem_datetime df c s) = rows (setitem df c s)"
  by (simp add: setitem_datetime_def)

lemma columns_setitem_datetime [simp]:
  "columns (setitem_datetime df c s) = columns (setitem df c s)"
  by (simp add: setitem_datetime_def)

lemma getitem_setitem_datetime [simp]:
  "getitem (setitem_datetime df c s) c' = getitem (setitem df c s) c'"
  by (simp add: getitem_def)

lemma datetimes_setitem: "datetimes (setitem df c s) = removeAll c (datetimes df)"
  by (simp add: setitem_def)

lemma datetimes_setitem_datetime:
  "set (datetimes (setitem_datetime df c s)) = insert c (set (datetimes df))"
  by (auto simp: setitem_datetime_def)

lemma datetimelike_cases: "datetimelike c \<Longrightarrow> c \<noteq> NA \<Longrightarrow> \<exists>t. c = Time t"
  by (cases c) auto

lemma df_ts_Inr:
  assumes "df_ts df = Inr d"
  shows "''IncidentDate'' \<in> set (columns df)"
    and "\<forall>r \<in> set (rows df). datetimelike (r ''IncidentDate'')"
    and "d = setitem_datetime (df\<lparr>rows := filter (\<lambda>r. r ''IncidentDate'' \<noteq> NA) (rows df)\<rparr>) ''YearMonth''
           (map (\<lambda>r. dt_to_period_M_to_timestamp (r ''IncidentDate''))
              (filter (\<lambda>r. r ''IncidentDate'' \<noteq> NA) (rows df)))"
proof -
  show c: "''IncidentDate'' \<in> set (columns df)"
    using assms by (auto simp: df_ts_def and_then_Inr_iff dropna_single split: if_splits)
  let ?d0 = "df\<lparr>rows := filter (\<lambda>r. r ''IncidentDate'' \<noteq> NA) (rows df)\<rparr>"
  have d0: "dropna df [''IncidentDate''] = Inr ?d0" using c by (simp add: dropna_single)
  have g: "getitem ?d0 ''IncidentDate'' = Inr (map (\<lambda>r. r ''IncidentDate'') (rows ?d0))"
    using c by (simp add: getitem_def)
  from assms have ok: "list_all datetimelike (map (\<lambda>r. r ''IncidentDate'') (rows ?d0))"
    and d: "d = setitem_datetime ?d0 ''YearMonth''
              (map dt_to_period_M_to_timestamp (map (\<lambda>r. r ''IncidentDate'') (rows ?d0)))"
    and fl: "''IncidentDate'' \<in> set (datetimes ?d0)"
    unfolding df_ts_def d0 and_then_Inr g by (auto simp: and_then_Inr_iff dt_Inr_iff)
  show "\<forall>r \<in> set (rows df). datetimelike (r ''IncidentDate'')"
  proof
    fix r assume r: "r \<in> set (rows df)"
    show "datetimelike (r ''IncidentDate'')"
    proof (cases "r ''IncidentDate'' = NA")
      case True then show ?thesis by simp
    next
      case False
      with r ok show ?thesis by (auto simp: list_all_iff)
    qed
  qed
  show "d = setitem_datetime ?d0 ''YearMonth''
           (map (\<lambda>r. dt_to_period_M_to_timestamp (r ''IncidentDate''))
              (filter (\<lambda>r. r ''IncidentDate'' \<noteq> NA) (rows df)))"
    using d by (simp add: comp_def)
qed

lemma df_ts_Inr_dtype:
  assumes "df_ts df = Inr d"
  shows "''IncidentDate'' \<in> set (datetimes df)"
proof -
  from assms have c: "''IncidentDate'' \<in> set (columns df)"
    by (auto simp: df_ts_def and_then_Inr_iff dropna_single split: if_splits)
  with assms show ?thesis
    by (auto simp: df_ts_def dropna_single and_then_Inr_iff dt_Inr_iff)
qed


lemma monthly_Inr:
  assumes "monthly df = Inr mo"
  shows "mo = groupby_size cell_key (month_keys df)"
    and "\<forall>r \<in> set (rows df). datetimelike (r ''IncidentDate'')"
proof -
  from assms obtain d where d: "df_ts df = Inr d"
    by (auto simp: monthly_def and_then_Inr_iff)
  note f = df_ts_Inr [OF d]
  show "\<forall>r \<in> set (rows df). datetimelike (r ''IncidentDate'')" by (rule f)
  have g: "getitem d ''YearMonth'' = Inr (month_keys df)"
    unfolding f(3) month_keys_def getitem_setitem_datetime
    by (rule getitem_setitem_same) simp
  have "NA \<notin> set (month_keys df)"
  proof
    assume "NA \<in> set (month_keys df)"
    then obtain r where r: "r \<in> set (rows df)" "r ''IncidentDate'' \<noteq> NA"
      and n: "dt_to_period_M_to_timestamp (r ''IncidentDate'') = NA"
      by (auto simp: month_keys_def)
    from f(2) r obtain t where "r ''IncidentDate'' = Time t"
      using datetimelike_cases by blast
    with n show False by simp
  qed
  then have "dropna_series (month_keys df) = month_keys df"
    unfolding dropna_series_def filter_id_conv by blast
  with assms show "mo = groupby_size cell_key (month_keys df)"
    by (simp add: monthly_def d g)
qed

lemma month_keys_alt:
  "month_keys df = map (\<lambda>r. dt_to_period_M_to_timestamp (r ''IncidentDate'')) (with_timestamp df)"
  by (simp add: month_keys_def with_timestamp_def)

lemma length_running [simp]: "length (running acc xs) = length xs"
  by (induction xs arbitrary: acc) auto

lemma running_nth:
  "i < length xs \<Longrightarrow> running acc xs ! i = acc + sum_list (take (Suc i) xs)"
proof (induction xs arbitrary: acc i)
  case Nil
  then show ?case by simp
next
  case (Cons x xs)
  then show ?case by (cases i) (auto simp: add.assoc)
qed

lemma running_ge: "y \<in> set (running acc xs) \<Longrightarrow> acc \<le> y"
proof (induction xs arbitrary: acc)
  case Nil
  then show ?case by simp
next
  case (Cons x xs)
  then show ?case by fastforce
qed

lemma sorted_running: "sorted (running acc xs)"
  by (induction xs arbitrary: acc) (auto dest: running_ge)

lemma last_running: "xs \<noteq> [] \<Longrightarrow> last (running acc xs) = acc + sum_list xs"
proof -
  assume xs: "xs \<noteq> []"
  then have "running acc xs \<noteq> []" by (cases xs) auto
  then have "last (running acc xs) = running acc xs ! (length xs - 1)"
    by (simp add: last_conv_nth)
  also have "\<dots> = acc + sum_list (take (Suc (length xs - 1)) xs)"
    using xs by (intro running_nth) simp
  finally show ?thesis using xs by simp
qed

lemma map_fst_cumsum [simp]: "map fst (cumsum s) = map fst s"
  by (simp add: cumsum_def)

lemma map_snd_cumsum [simp]: "map snd (cumsum s) = running 0 (map snd s)"
  by (simp add: cumsum_def)

lemma cumsum_Nil_iff [simp]: "cumsum s = [] \<longleftrightarrow> s = []"
  by (cases s) (auto simp: cumsum_def)

lemma length_cumsum [simp]: "length (cumsum s) = length s"
  by (simp add: cumsum_def)

lemma snd_last_cumsum: "s \<noteq> [] \<Longrightarrow> snd (last (cumsum s)) = sum_list (map snd s)"
proof -
  assume s: "s \<noteq> []"
  then have "cumsum s \<noteq> []" by simp
  then have "last (map snd (cumsum s)) = snd (last (cumsum s))" by (rule last_map)
  then have "snd (last (cumsum s)) = last (map snd (cumsum s))" by (rule sym)
  also have "\<dots> = sum_list (map snd s)" using s by (simp add: last_running)
  finally show ?thesis .
qed

lemma snd_nth_cumsum:
  "i < length s \<Longrightarrow> snd (cumsum s ! i) = sum_list (take (Suc i) (map snd s))"
proof -
  assume i: "i < length s"
  then have "i < length (cumsum s)" by simp
  then have "map snd (cumsum s) ! i = snd (cumsum s ! i)" by (rule nth_map)
  then have "snd (cumsum s ! i) = map snd (cumsum s) ! i" by (rule sym)
  also have "\<dots> = sum_list (take (Suc i) (map snd s))"
    using i by (simp add: running_nth)
  finally show ?thesis .
qed

lemma sum_monthly:
  assumes "monthly df = Inr mo"
  shows "sum_list (map snd mo) = length (with_timestamp df)"
  using monthly_Inr(1) [OF assms] by (simp add: sum_groupby_size month_keys_alt)

lemma monthly_example:
  "monthly example_df = Inr [(Time 1420070400000000000, 2), (Time 1425168000000000000, 1)]"
  by code_simp

lemma times_of_keys:
  assumes "\<forall>k \<in> set ks. \<exists>t. k = Time t"
    and "sorted_wrt (\<lambda>a b. cell_key a < cell_key b) ks"
  shows "\<exists>ts. ks = map Time ts \<and> sorted_wrt (<) ts"
proof -
  from assms(1) obtain ts where ts: "ks = map Time ts"
    by (metis ex_map_conv)
  with assms(2) have "sorted_wrt (<) ts" by (simp add: sorted_wrt_map)
  with ts show ?thesis by blast
qed

lemma month_key_Time:
  assumes "\<forall>r \<in> set (rows df). datetimelike (r ''IncidentDate'')" and "k \<in> set (month_keys df)"
  shows "\<exists>t. k = Time t"
proof -
  from assms(2) obtain r where r: "r \<in> set (rows df)" "r ''IncidentDate'' \<noteq> NA"
    and k: "k = dt_to_period_M_to_timestamp (r ''IncidentDate'')"
    by (auto simp: month_keys_def)
  from assms(1) r obtain t where "r ''IncidentDate'' = Time t"
    using datetimelike_cases by blast
  with k show ?thesis by simp
qed

lemma period_start_jan_2015: "period_start ((2015 - 1970) * 12 + 1 - 1) = 1420070400000000000"
  by (simp add: period_start_def days_from_civil_def ns_per_day_def)

lemma period_start_mar_2015: "period_start ((2015 - 1970) * 12 + 3 - 1) = 1425168000000000000"
  by (simp add: period_start_def days_from_civil_def ns_per_day_def)

lemma two_keys:
  assumes "sorted_wrt (<) ts" and "set ts = {a, b}" and "a < (b::int)"
  shows "ts = [a, b]"
proof -
  have "distinct ts" "sorted ts"
    using assms(1) strict_sorted_iff by blast+
  moreover have "distinct [a, b]" "sorted [a, b]" "set [a, b] = set ts"
    using assms(2,3) by auto
  ultimately show ?thesis
    by (metis sorted_distinct_set_unique)
qed

lemma example_timestamps:
  "map (\<lambda>r. r ''IncidentDate'') (with_timestamp example_df) =
     [Time 1420452000000000000, Time 1425254400000000000, Time 1421796600000000000]"
  by code_simp

lemma example_dates:
  "year_of 1420452000000000000 = 2015" "month_of 1420452000000000000 = 1"
  "year_of 1425254400000000000 = 2015" "month_of 1425254400000000000 = 3"
  "year_of 1421796600000000000 = 2015" "month_of 1421796600000000000 = 1"
  by code_simp+

subsection \<open>Weekday counts and the normalizer\<close>

lemma map_of_value_counts:
  "map_of (value_counts s) k =
     (if k \<in> set (dropna_series s) then Some (count_list (dropna_series s) k) else None)"
proof (cases "k \<in> set (dropna_series s)")
  case True
  then have "(k, count_list (dropna_series s) k) \<in> set (value_counts s)"
    by (simp add: set_value_counts)
  then show ?thesis
    using True distinct_keys_value_counts [of s] by simp
next
  case False
  then have "k \<notin> fst ` set (value_counts s)"
    by (auto simp: set_value_counts)
  then show ?thesis using False by (simp add: map_of_eq_None_iff)
qed

lemma reindex_fillna_value_counts:
  "fillna 0 (reindex (value_counts s) labels) = map (\<lambda>l. (l, count_list s (Str l))) labels"
proof -
  have "(case map_of (value_counts s) (Str l) of None \<Rightarrow> 0 | Some n \<Rightarrow> n) = count_list s (Str l)" for l
    using count_list_0_iff [of "dropna_series s" "Str l"]
    by (simp add: map_of_value_counts count_list_dropna)
  then show ?thesis by (simp add: fillna_def reindex_def comp_def)
qed

lemma weekday_counts_Inr:
  assumes "weekday_counts df = Inr wc"
  shows "wc = map (\<lambda>l. (l, length (filter (\<lambda>r. r ''Weekday'' = Str l) (rows df)))) weekday_order"
  using assms
  by (auto simp: weekday_counts_def and_then_Inr_iff getitem_Inr_iff
      reindex_fillna_value_counts count_list_column)

lemma sum_indicator_distinct:
  "distinct ls \<Longrightarrow> (\<Sum>l\<leftarrow>ls. if y = l then 1 else 0) = (if y \<in> set ls then 1 else (0::nat))"
  by (induction ls) auto

lemma sum_length_filter_eq:
  "distinct ls \<Longrightarrow>
     (\<Sum>l\<leftarrow>ls. length (filter (\<lambda>x. f x = l) xs)) = length (filter (\<lambda>x. f x \<in> set ls) xs)"
proof (induction xs)
  case Nil
  then show ?case by simp
next
  case (Cons x xs)
  have "(\<Sum>l\<leftarrow>ls. length (filter (\<lambda>x. f x = l) (x # xs)))
          = (\<Sum>l\<leftarrow>ls. (if f x = l then 1 else 0) + length (filter (\<lambda>x. f x = l) xs))"
    by (rule arg_cong [where f = sum_list]) simp
  also have "\<dots> = (\<Sum>l\<leftarrow>ls. if f x = l then 1 else 0) + (\<Sum>l\<leftarrow>ls. length (filter (\<lambda>x. f x = l) xs))"
    by (simp add: sum_list_addf)
  finally show ?case using Cons by (simp add: sum_indicator_distinct)
qed

lemma distinct_weekday_order: "distinct (map Str weekday_order)"
  by (simp add: weekday_order_def)

lemma sum_weekday_counts:
  assumes "weekday_counts df = Inr wc"
  shows "sum_list (map snd wc) =
           length (filter (\<lambda>r. r ''Weekday'' \<in> Str ` set weekday_order) (rows df))"
proof -
  have "sum_list (map snd wc) =
      (\<Sum>l\<leftarrow>map Str weekday_order. length (filter (\<lambda>r. r ''Weekday'' = l) (rows df)))"
    by (simp add: weekday_counts_Inr [OF assms] comp_def)
  also have "\<dots> = length (filter (\<lambda>r. r ''Weekday'' \<in> set (map Str weekday_order)) (rows df))"
    using distinct_weekday_order by (rule sum_length_filter_eq)
  finally show ?thesis by simp
qed

lemma rows_setitem_map:
  "rows (setitem df c (map g (rows df))) = map (\<lambda>r. r(c := g r)) (rows df)"
  by (simp add: setitem_def zip_map2 zip_same_conv_map comp_def)

lemma columns_setitem: "columns (setitem df c s) = add_column (columns df) c"
  by (simp add: setitem_def add_column_def)

lemma assign_dt_cases:
  "assign_dt df c f =
     (if ''IncidentDate'' \<in> set (columns df) then
        (if ''IncidentDate'' \<in> set (datetimes df) \<and>
            list_all datetimelike (map (\<lambda>r. r ''IncidentDate'') (rows df))
         then Inr (setitem df c (map f (map (\<lambda>r. r ''IncidentDate'') (rows df))))
         else Inl AttributeError)
      else Inl (KeyError ''IncidentDate''))"
  by (simp add: assign_dt_def getitem_def dt_def)

lemma assign_dt_Inr_iff:
  "assign_dt df c f = Inr df' \<longleftrightarrow>
     ''IncidentDate'' \<in> set (columns df) \<and>
     ''IncidentDate'' \<in> set (datetimes df) \<and>
     (\<forall>r \<in> set (rows df). datetimelike (r ''IncidentDate'')) \<and>
     df' = setitem df c (map (\<lambda>r. f (r ''IncidentDate'')) (rows df))"
  unfolding assign_dt_cases
  by (simp add: list_all_iff comp_def eq_commute [of "Inr df'"] eq_commute [of df'])

lemma assign_dt_ok:
  assumes "''IncidentDate'' \<in> set (columns df)"
    and "''IncidentDate'' \<in> set (datetimes df)"
    and "\<forall>r \<in> set (rows df). datetimelike (r ''IncidentDate'')"
  shows "assign_dt df c f = Inr (setitem df c (map (\<lambda>r. f (r ''IncidentDate'')) (rows df)))"
  using assms by (simp add: assign_dt_Inr_iff)

lemma assign_dt_not_parsed:
  assumes "''IncidentDate'' \<in> set (columns df)"
    and "\<not> (''IncidentDate'' \<in> set (datetimes df) \<and>
            (\<forall>r \<in> set (rows df). datetimelike (r ''IncidentDate'')))"
  shows "assign_dt df c f = Inl AttributeError"
  using assms unfolding assign_dt_cases by (auto simp: list_all_iff)

lemma setitem_keeps_dates:
  assumes "''IncidentDate'' \<in> set (columns df)"
    and "''IncidentDate'' \<in> set (datetimes df)"
    and "\<forall>r \<in> set (rows df). datetimelike (r ''IncidentDate'')"
    and "c \<noteq> ''IncidentDate''"
    and "df' = setitem df c (map g (rows df))"
  shows "''IncidentDate'' \<in> set (columns df')"
    and "''IncidentDate'' \<in> set (datetimes df')"
    and "\<forall>r \<in> set (rows df'). datetimelike (r ''IncidentDate'')"
    and "rows df' = map (\<lambda>r. r(c := g r)) (rows df)"
    and "columns df' = add_column (columns df) c"
    and "datetimes df' = removeAll c (datetimes df)"
proof -
  show r: "rows df' = map (\<lambda>r. r(c := g r)) (rows df)"
    unfolding assms(5) by (rule rows_setitem_map)
  show "columns df' = add_column (columns df) c"
    unfolding assms(5) by (rule columns_setitem)
  then show "''IncidentDate'' \<in> set (columns df')"
    using assms(1) by (simp add: add_column_def)
  show dts: "datetimes df' = removeAll c (datetimes df)"
    unfolding assms(5) by (rule datetimes_setitem)
  show "''IncidentDate'' \<in> set (datetimes df')"
    unfolding dts using assms(2,4) by simp
  show "\<forall>r \<in> set (rows df'). datetimelike (r ''IncidentDate'')"
    unfolding r using assms(3,4) by (simp add: fun_upd_def)
qed

lemma ensure_temporal_fields_derived:
  assumes y: "''Year'' \<notin> set (columns df)"
    and c: "''IncidentDate'' \<in> set (columns df)"
    and t: "''IncidentDate'' \<in> set (datetimes df)"
    and d: "\<forall>r \<in> set (rows df). datetimelike (r ''IncidentDate'')"
  shows "\<exists>df'. ensure_temporal_fields df = Inr df' \<and>
           rows df' = map derive (rows df) \<and>
           columns df' = foldl add_column (columns df) temporal_fields \<and>
           datetimes df' = foldl (\<lambda>ds c. removeAll c ds) (datetimes df) temporal_fields"
proof -
  define df1 where "df1 = setitem df ''Year'' (map (\<lambda>r. dt_year (r ''IncidentDate'')) (rows df))"
  define df2 where "df2 = setitem df1 ''Month'' (map (\<lambda>r. dt_month (r ''IncidentDate'')) (rows df1))"
  define df3 where "df3 = setitem df2 ''Day'' (map (\<lambda>r. dt_day (r ''IncidentDate'')) (rows df2))"
  define df4 where "df4 = setitem df3 ''Hour'' (map (\<lambda>r. dt_hour (r ''IncidentDate'')) (rows df3))"
  define df5 where "df5 = setitem df4 ''Weekday'' (map (\<lambda>r. dt_day_name (r ''IncidentDate'')) (rows df4))"
  have n: "''Year'' \<noteq> ''IncidentDate''" "''Month'' \<noteq> ''IncidentDate''" "''Day'' \<noteq> ''IncidentDate''"
    "''Hour'' \<noteq> ''IncidentDate''" "''Weekday'' \<noteq> ''IncidentDate''"
    by simp_all
  note k1 = setitem_keeps_dates [OF c t d n(1) df1_def]
  note k2 = setitem_keeps_dates [OF k1(1,2,3) n(2) df2_def]
  note k3 = setitem_keeps_dates [OF k2(1,2,3) n(3) df3_def]
  note k4 = setitem_keeps_dates [OF k3(1,2,3) n(4) df4_def]
  note k5 = setitem_keeps_dates [OF k4(1,2,3) n(5) df5_def]
  have a1: "assign_dt df ''Year'' dt_year = Inr df1"
    unfolding df1_def by (rule assign_dt_ok [OF c t d])
  have a2: "assign_dt df1 ''Month'' dt_month = Inr df2"
    unfolding df2_def by (rule assign_dt_ok [OF k1(1,2,3)])
  have a3: "assign_dt df2 ''Day'' dt_day = Inr df3"
    unfolding df3_def by (rule assign_dt_ok [OF k2(1,2,3)])
  have a4: "assign_dt df3 ''Hour'' dt_hour = Inr df4"
    unfolding df4_def by (rule assign_dt_ok [OF k3(1,2,3)])
  have a5: "assign_dt df4 ''Weekday'' dt_day_name = Inr df5"
    unfolding df5_def by (rule assign_dt_ok [OF k4(1,2,3)])
  have e: "ensure_temporal_fields df = Inr df5"
    using y c by (simp add: ensure_temporal_fields_def a1 a2 a3 a4 a5)
  have r: "rows df5 = map derive (rows df)"
    unfolding k5(4) k4(4) k3(4) k2(4) k1(4) map_map
    by (rule map_cong [OF refl]) (simp add: derive_def comp_def)
  have cs: "columns df5 = foldl add_column (columns df) temporal_fields"
    unfolding k5(5) k4(5) k3(5) k2(5) k1(5) by (simp add: temporal_fields_def)
  have ds: "datetimes df5 = foldl (\<lambda>ds c. removeAll c ds) (datetimes df) temporal_fields"
    unfolding k5(6) k4(6) k3(6) k2(6) k1(6) by (simp add: temporal_fields_def)
  from e r cs ds show ?thesis by blast
qed

lemma set_foldl_removeAll:
  "set (foldl (\<lambda>ds c. removeAll c ds) xs cs) = set xs - set cs"
  by (induction cs arbitrary: xs) auto

lemma ensure_temporal_fields_not_parsed:
  assumes "''Year'' \<notin> set (columns df)" and "''IncidentDate'' \<in> set (columns df)"
    and "\<not> (''IncidentDate'' \<in> set (datetimes df) \<and>
            (\<forall>r \<in> set (rows df). datetimelike (r ''IncidentDate'')))"
  shows "ensure_temporal_fields df = Inl AttributeError"
  using assms(1,2) assign_dt_not_parsed [OF assms(2,3)]
  by (simp add: ensure_temporal_fields_def)

lemma foldl_add_column_fresh:
  "distinct cs \<Longrightarrow> set cs \<inter> set xs = {} \<Longrightarrow> foldl add_column xs cs = xs @ cs"
proof (induction cs arbitrary: xs)
  case Nil
  then show ?case by simp
next
  case (Cons c cs)
  from Cons.prems have "add_column xs c = xs @ [c]" by (simp add: add_column_def)
  moreover from Cons.prems have "distinct cs" "set cs \<inter> set (xs @ [c]) = {}" by auto
  ultimately show ?case using Cons.IH [of "xs @ [c]"] by simp
qed

lemma ensure_Inr_datetimelike:
  assumes "''Year'' \<notin> set (columns df)" and "''IncidentDate'' \<in> set (columns df)"
    and "ensure_temporal_fields df = Inr df'"
  shows "\<forall>r \<in> set (rows df). datetimelike (r ''IncidentDate'')"
proof -
  from assms obtain df1 where "assign_dt df ''Year'' dt_year = Inr df1"
    by (auto simp: ensure_temporal_fields_def and_then_Inr_iff)
  then show ?thesis by (simp add: assign_dt_Inr_iff)
qed

lemma ensure_Inr_dtype:
  assumes "''Year'' \<notin> set (columns df)" and "''IncidentDate'' \<in> set (columns df)"
    and "ensure_temporal_fields df = Inr df'"
  shows "''IncidentDate'' \<in> set (datetimes df)"
proof -
  from assms obtain df1 where "assign_dt df ''Year'' dt_year = Inr df1"
    by (auto simp: ensure_temporal_fields_def and_then_Inr_iff)
  then show ?thesis by (simp add: assign_dt_Inr_iff)
qed

lemma example_dtype: "''IncidentDate'' \<in> set (datetimes example_df)"
  by (simp add: example_df_def)

lemma example_datetimelike: "\<forall>r \<in> set (rows example_df). datetimelike (r ''IncidentDate'')"
  by (simp add: example_df_def example_rows_def mk_row_def)

lemma example_fresh:
  "set [''Year'', ''Month'', ''Day'', ''Hour'', ''Weekday''] \<inter> set (columns example_df) = {}"
  by (simp add: example_df_def example_columns_def)

lemma example_has_date: "''IncidentDate'' \<in> set (columns example_df)"
  by (simp add: example_df_def example_columns_def)

lemma day_name_canonical: "day_name_of t \<in> set weekday_order"
proof -
  have "nat ((t div ns_per_day + 3) mod 7) < length weekday_order"
    by (simp add: weekday_order_def nat_less_iff)
  then show ?thesis unfolding day_name_of_def by (rule nth_mem)
qed

lemma derived_weekday:
  "datetimelike (r ''IncidentDate'') \<Longrightarrow>
     derive r ''Weekday'' = NA \<or> derive r ''Weekday'' \<in> Str ` set weekday_order"
  by (cases "r ''IncidentDate''") (simp_all add: derive_def day_name_canonical)

lemma ensure_Inr_rows:
  assumes "''Year'' \<notin> set (columns df)" and "''IncidentDate'' \<in> set (columns df)"
    and "ensure_temporal_fields df = Inr df'"
  shows "rows df' = map derive (rows df)"
  using ensure_temporal_fields_derived
      [OF assms(1,2) ensure_Inr_dtype [OF assms] ensure_Inr_datetimelike [OF assms]] assms(3)
  by auto

lemma example_weekday_counts:
  "and_then (ensure_temporal_fields example_df) weekday_counts =
     Inr [(''Monday'', 2), (''Tuesday'', 1), (''Wednesday'', 0), (''Thursday'', 0),
          (''Friday'', 0), (''Saturday'', 0), (''Sunday'', 0)]"
  by code_simp

lemma example_no_year: "''Year'' \<notin> set (columns example_df)"
  by (simp add: example_df_def example_columns_def)

subsection \<open>Arrest rate\<close>

lemma filter_zip_map: "map fst (filter snd (zip xs (map P xs))) = filter P xs"
  by (induction xs) auto

lemma rows_getitem_mask_isin:
  "rows (getitem_mask df (isin (map f (rows df)) vs)) = filter (\<lambda>r. f r \<in> set vs) (rows df)"
proof -
  have "isin (map f (rows df)) vs = map (\<lambda>r. f r \<in> set vs) (rows df)"
    by (simp add: isin_def comp_def)
  then show ?thesis by (simp add: getitem_mask_def filter_zip_map)
qed

lemma columns_getitem_mask [simp]: "columns (getitem_mask df keep) = columns df"
  by (simp add: getitem_mask_def)

lemma zip_map_same: "zip (map f xs) (map g xs) = map (\<lambda>x. (f x, g x)) xs"
  by (induction xs) auto

lemma mean_groups_Inr:
  "(\<And>k. k \<in> set ks \<Longrightarrow> mean (map snd (filter (\<lambda>kv. fst kv = k) kvs)) = Inr (f k))
     \<Longrightarrow> mean_groups kvs ks = Inr (map (\<lambda>k. (k, f k)) ks)"
  by (induction ks) auto

lemma loc_map:
  "set ls \<subseteq> set ks \<Longrightarrow> loc (map (\<lambda>k. (k, f k)) ks) ls = Inr (map (\<lambda>l. (l, f l)) ls)"
  by (induction ls) (auto simp: map_of_map_restrict)

lemma sum_bools:
  "\<forall>x \<in> set xs. \<exists>b. g x = Bool b \<Longrightarrow>
     sum_list (map (\<lambda>x. num_val (g x)) xs) = real (length (filter (\<lambda>x. g x = Bool True) xs))"
  by (induction xs) auto

lemma mean_bools:
  assumes "\<forall>x \<in> set xs. \<exists>b. g x = Bool b" and "xs \<noteq> []"
  shows "mean (map g xs) = Inr (Num (sum_list (map (\<lambda>x. num_val (g x)) xs) / real (length xs)))"
proof -
  have d: "dropna_series (map g xs) = map g xs"
    unfolding dropna_series_def filter_id_conv using assms(1) by auto
  have n: "list_all is_numeric (map g xs)"
    using assms(1) by (auto simp: list_all_iff)
  show ?thesis using assms(2) by (simp add: mean_def d n comp_def)
qed

lemma top_primary_Inr:
  assumes "top_primary df = Inr tp"
  shows "''Primary Type'' \<in> set (columns df)"
    and "tp = head 10 (value_counts (map (\<lambda>r. r ''Primary Type'') (rows df)))"
    and "NA \<notin> set (map fst tp)"
    and "\<forall>k \<in> set (map fst tp). category_rows df k \<noteq> []"
proof -
  from assms obtain s where s: "getitem df ''Primary Type'' = Inr s"
    and tp: "tp = head 10 (value_counts s)"
    by (auto simp: top_primary_def and_then_Inr_iff)
  from s show "''Primary Type'' \<in> set (columns df)"
    and "tp = head 10 (value_counts (map (\<lambda>r. r ''Primary Type'') (rows df)))"
    using tp by (simp_all add: getitem_Inr_iff)
  note p = ranking_props [OF s tp]
  from p(2) show "NA \<notin> set (map fst tp)" by simp
  show "\<forall>k \<in> set (map fst tp). category_rows df k \<noteq> []"
  proof
    fix k assume "k \<in> set (map fst tp)"
    then obtain n where "(k, n) \<in> set tp" by auto
    with p(5) have "0 < length (filter (\<lambda>r. r ''Primary Type'' = k) (rows df))" by auto
    then show "category_rows df k \<noteq> []" by (simp add: category_rows_def)
  qed
qed

lemma arrest_rate_value:
  assumes p: "''Primary Type'' \<in> set (columns df)"
    and a: "''Arrest'' \<in> set (columns df)"
    and b: "\<forall>r \<in> set (rows df). \<exists>b. r ''Arrest'' = Bool b"
    and t3: "NA \<notin> set top10"
    and t4: "\<forall>k \<in> set top10. category_rows df k \<noteq> []"
  shows "arrest_rate df top10 = Inr (map (\<lambda>c. (c, Num (arrest_mean df c))) top10)"
proof -
  let ?pt = "\<lambda>r::row. r ''Primary Type''"
  let ?ar = "\<lambda>r::row. r ''Arrest''"
  define sub where "sub = getitem_mask df (isin (map ?pt (rows df)) top10)"
  have rows_sub: "rows sub = filter (\<lambda>r. ?pt r \<in> set top10) (rows df)"
    unfolding sub_def by (rule rows_getitem_mask_isin)
  have cols_sub: "columns sub = columns df" by (simp add: sub_def)
  define kvs where "kvs = map (\<lambda>r. (?pt r, ?ar r)) (rows sub)"
  have in_top: "fst kv \<in> set top10" if "kv \<in> set kvs" for kv
    using that unfolding kvs_def rows_sub by auto
  have nn: "filter (\<lambda>kv. fst kv \<noteq> NA) kvs = kvs"
    unfolding filter_id_conv using in_top t3 by metis
  have keys: "set (map fst kvs) = set top10"
  proof
    show "set (map fst kvs) \<subseteq> set top10" using in_top by auto
    show "set top10 \<subseteq> set (map fst kvs)"
    proof
      fix k assume k: "k \<in> set top10"
      with t4 have "category_rows df k \<noteq> []" by blast
      then obtain r where "r \<in> set (rows df)" "?pt r = k"
        unfolding category_rows_def filter_empty_conv by blast
      with k show "k \<in> set (map fst kvs)"
        unfolding kvs_def rows_sub by (auto simp: image_iff)
    qed
  qed
  have grp: "mean (map snd (filter (\<lambda>kv. fst kv = k) kvs)) = Inr (Num (arrest_mean df k))"
    if "k \<in> set (group_keys cell_key (map fst kvs))" for k
  proof -
    from that keys have k: "k \<in> set top10" by simp
    have "filter (\<lambda>r. ?pt r = k) (rows sub) = category_rows df k"
      unfolding rows_sub category_rows_def filter_filter
      by (rule filter_cong [OF refl]) (use k in auto)
    then have "map snd (filter (\<lambda>kv. fst kv = k) kvs) = map ?ar (category_rows df k)"
      unfolding kvs_def by (simp add: filter_map comp_def)
    moreover have "\<forall>r \<in> set (category_rows df k). \<exists>b. ?ar r = Bool b"
      using b by (simp add: category_rows_def)
    moreover have "category_rows df k \<noteq> []" using t4 k by blast
    ultimately show ?thesis by (simp add: mean_bools arrest_mean_def)
  qed
  have g: "groupby_mean sub ''Primary Type'' ''Arrest'' =
      Inr (map (\<lambda>k. (k, Num (arrest_mean df k))) (group_keys cell_key (map fst kvs)))"
  proof -
    have "groupby_mean sub ''Primary Type'' ''Arrest'' =
        mean_groups kvs (group_keys cell_key (map fst kvs))"
      using p a
      by (simp add: groupby_mean_def getitem_def cols_sub zip_map_same kvs_def [symmetric]
          nn Let_def)
    also have "\<dots> = Inr (map (\<lambda>k. (k, Num (arrest_mean df k))) (group_keys cell_key (map fst kvs)))"
      by (rule mean_groups_Inr) (rule grp)
    finally show ?thesis .
  qed
  have "arrest_rate df top10 =
      loc (map (\<lambda>k. (k, Num (arrest_mean df k))) (group_keys cell_key (map fst kvs))) top10"
    using p by (simp add: arrest_rate_def getitem_def sub_def [symmetric] g)
  also have "\<dots> = Inr (map (\<lambda>c. (c, Num (arrest_mean df c))) top10)"
    by (rule loc_map) (simp only: set_group_keys keys subset_refl)
  finally show ?thesis .
qed

lemma majority_first:
  assumes k: "k \<noteq> NA" and m: "length s < 2 * count_list s k"
  shows "\<exists>rest. value_counts s = (k, count_list s k) # rest"
proof -
  let ?vs = "dropna_series s"
  let ?n = "count_list s k"
  from m have "0 < count_list s k" by simp
  then have "k \<in> set s" using count_list_0_iff [of s k] by auto
  with k have kin: "k \<in> set ?vs" by (simp add: dropna_series_def)
  then have mem: "(k, ?n) \<in> set (value_counts s)"
    using k by (auto simp: set_value_counts count_list_dropna)
  then obtain x rest where vc: "value_counts s = x # rest"
    by (cases "value_counts s") auto
  show ?thesis
  proof (cases "x = (k, ?n)")
    case True
    with vc show ?thesis by blast
  next
    case False
    with mem vc have r: "(k, ?n) \<in> set rest" by auto
    have "sorted_wrt (\<lambda>a b. a \<ge> b) (map snd (x # rest))"
      using descending_value_counts [of s] by (simp add: vc)
    with r have le1: "?n \<le> snd x" by force
    have "?n \<in> set (map snd rest)" using r by force
    then have le2: "?n \<le> sum_list (map snd rest)" by (simp add: member_le_sum_list)
    from le1 le2 have "2 * ?n \<le> sum_list (map snd (value_counts s))"
      by (simp add: vc)
    also have "\<dots> \<le> length s"
      by (simp add: sum_value_counts length_dropna_series_le)
    finally show ?thesis using m by simp
  qed
qed

lemma map_of_tabulate: "k \<in> set ks \<Longrightarrow> map_of (map (\<lambda>c. (c, g c)) ks) k = Some (g k)"
  by (simp add: map_of_map_restrict)

lemma unit_interval_sum:
  "\<forall>x \<in> set xs. 0 \<le> f x \<and> f x \<le> (1::real) \<Longrightarrow>
     0 \<le> sum_list (map f xs) \<and> sum_list (map f xs) \<le> real (length xs)"
  by (induction xs) auto

lemma arrest_mean_bounds:
  assumes "\<forall>r \<in> set (rows df). \<exists>b. r ''Arrest'' = Bool b"
  shows "0 \<le> arrest_mean df c \<and> arrest_mean df c \<le> 1"
proof -
  let ?xs = "category_rows df c"
  have "\<forall>r \<in> set ?xs. 0 \<le> num_val (r ''Arrest'') \<and> num_val (r ''Arrest'') \<le> 1"
    using assms by (auto simp: category_rows_def)
  then have s: "0 \<le> sum_list (map (\<lambda>r. num_val (r ''Arrest'')) ?xs) \<and>
      sum_list (map (\<lambda>r. num_val (r ''Arrest'')) ?xs) \<le> real (length ?xs)"
    by (rule unit_interval_sum)
  show ?thesis
  proof (cases "?xs = []")
    case True
    then show ?thesis by (simp add: arrest_mean_def)
  next
    case False
    then have "0 < real (length ?xs)" by simp
    with s show ?thesis by (simp add: arrest_mean_def divide_le_eq)
  qed
qed

lemma arrest_mean_counts:
  assumes "\<forall>r \<in> set (rows df). \<exists>b. r ''Arrest'' = Bool b"
  shows "arrest_mean df c =
     real (length (filter (\<lambda>r. r ''Arrest'' = Bool True) (category_rows df c)))
       / real (length (category_rows df c))"
proof -
  have "\<forall>r \<in> set (category_rows df c). \<exists>b. r ''Arrest'' = Bool b"
    using assms by (simp add: category_rows_def)
  then show ?thesis unfolding arrest_mean_def by (simp add: sum_bools)
qed

lemma theft_top_primary:
  "top_primary theft_df = Inr [(Str ''THEFT'', 60), (Str ''BATTERY'', 40)]"
  by code_simp

lemma theft_arrest_column: "''Arrest'' \<in> set (columns theft_df)"
  by (simp add: theft_df_def)

lemma theft_arrest_bool: "\<forall>r \<in> set (rows theft_df). \<exists>b. r ''Arrest'' = Bool b"
  by (auto simp: theft_df_def mk_row_def)

lemma theft_counts:
  "len theft_df = 100"
  "length (category_rows theft_df (Str ''THEFT'')) = 60"
  "length (filter (\<lambda>r. r ''Arrest'' = Bool True) (category_rows theft_df (Str ''THEFT''))) = 30"
  by (simp_all add: len_def theft_df_def category_rows_def mk_row_def)

subsection \<open>Daily counts by month\<close>






lemma getitem_setitem_map:
  "getitem (setitem df c (map g (rows df))) c' =
     (if c' = c then Inr (map g (rows df))
      else if c' \<in> set (columns df) then Inr (map (\<lambda>r. r c') (rows df))
      else Inl (KeyError c'))"
  by (simp add: getitem_def rows_setitem_map columns_setitem add_column_def comp_def)

lemma df_ts_rows:
  assumes "df_ts df = Inr d"
  shows "rows d = map (\<lambda>r. r(''YearMonth'' := dt_to_period_M_to_timestamp (r ''IncidentDate'')))
                    (with_timestamp df)"
    and "columns d = add_column (columns df) ''YearMonth''"
    and "''IncidentDate'' \<in> set (datetimes d)"
proof -
  let ?d0 = "df\<lparr>rows := with_timestamp df\<rparr>"
  have d: "d = setitem_datetime ?d0 ''YearMonth''
      (map (\<lambda>r. dt_to_period_M_to_timestamp (r ''IncidentDate'')) (rows ?d0))"
    using df_ts_Inr(3) [OF assms] by (simp add: with_timestamp_def)
  show "rows d = map (\<lambda>r. r(''YearMonth'' := dt_to_period_M_to_timestamp (r ''IncidentDate'')))
                    (with_timestamp df)"
    unfolding d rows_setitem_datetime rows_setitem_map by simp
  show "columns d = add_column (columns df) ''YearMonth''"
    unfolding d columns_setitem_datetime columns_setitem by simp
  show "''IncidentDate'' \<in> set (datetimes d)"
    unfolding d datetimes_setitem_datetime using df_ts_Inr_dtype [OF assms] by simp
qed

lemma df_ts_date_Inr:
  assumes "df_ts_date df = Inr d2"
  shows "\<forall>r \<in> set (rows df). datetimelike (r ''IncidentDate'')"
    and "getitem d2 ''Year'' = (if ''Year'' \<in> set (columns df)
           then Inr (map (\<lambda>r. r ''Year'') (with_timestamp df)) else Inl (KeyError ''Year''))"
    and "getitem d2 ''Month'' = (if ''Month'' \<in> set (columns df)
           then Inr (map (\<lambda>r. r ''Month'') (with_timestamp df)) else Inl (KeyError ''Month''))"
    and "getitem d2 ''DateOnly'' = Inr (map (\<lambda>r. dt_date (r ''IncidentDate'')) (with_timestamp df))"
proof -
  from assms obtain d s t where d: "df_ts df = Inr d"
    and s: "getitem d ''IncidentDate'' = Inr s" and t: "dt d ''IncidentDate'' s = Inr t"
    and d2: "d2 = setitem d ''DateOnly'' (map dt_date t)"
    by (auto simp: df_ts_date_def and_then_Inr_iff)
  note r = df_ts_rows [OF d]
  show "\<forall>r \<in> set (rows df). datetimelike (r ''IncidentDate'')"
    by (rule df_ts_Inr(2) [OF d])
  from s have s': "s = map (\<lambda>r. r ''IncidentDate'') (rows d)" by (simp add: getitem_Inr_iff)
  from t have t': "t = s" by (simp add: dt_Inr_iff)
  have d2': "d2 = setitem d ''DateOnly'' (map (\<lambda>r. dt_date (r ''IncidentDate'')) (rows d))"
    unfolding d2 t' s' by (simp add: comp_def)
  have id: "map (\<lambda>r. r ''IncidentDate'') (rows d) = map (\<lambda>r. r ''IncidentDate'') (with_timestamp df)"
    unfolding r(1) by (simp add: comp_def)
  have yr: "map (\<lambda>r. r ''Year'') (rows d) = map (\<lambda>r. r ''Year'') (with_timestamp df)"
    unfolding r(1) by (simp add: comp_def)
  have mo: "map (\<lambda>r. r ''Month'') (rows d) = map (\<lambda>r. r ''Month'') (with_timestamp df)"
    unfolding r(1) by (simp add: comp_def)
  have dd: "map (\<lambda>r. dt_date (r ''IncidentDate'')) (rows d)
      = map (\<lambda>r. dt_date (r ''IncidentDate'')) (with_timestamp df)"
    unfolding r(1) by (simp add: comp_def)
  show "getitem d2 ''Year'' = (if ''Year'' \<in> set (columns df)
           then Inr (map (\<lambda>r. r ''Year'') (with_timestamp df)) else Inl (KeyError ''Year''))"
    unfolding d2' getitem_setitem_map yr r(2) by (simp add: add_column_def)
  show "getitem d2 ''Month'' = (if ''Month'' \<in> set (columns df)
           then Inr (map (\<lambda>r. r ''Month'') (with_timestamp df)) else Inl (KeyError ''Month''))"
    unfolding d2' getitem_setitem_map mo r(2) by (simp add: add_column_def)
  show "getitem d2 ''DateOnly'' = Inr (map (\<lambda>r. dt_date (r ''IncidentDate'')) (with_timestamp df))"
  proof -
    have "getitem d2 ''DateOnly'' = Inr (map (\<lambda>r. dt_date (r ''IncidentDate'')) (rows d))"
      unfolding d2' by (simp add: getitem_setitem_map)
    then show ?thesis unfolding dd .
  qed
qed










subsection \<open>The spatial sample and the whole run\<close>

lemma sample_seeded:
  "sample gen g df n (Some seed) = (fst (sample gen 0 df n (Some seed)), g)"
  by (simp add: sample_def)

lemma sample_scatter_state:
  "sample_scatter gen g df la lo = (fst (sample_scatter gen 0 df la lo), g)"
proof (cases "dropna df [la, lo]")
  case (Inl e)
  then show ?thesis by (simp add: sample_scatter_def)
next
  case (Inr d)
  then show ?thesis
    using sample_seeded [of gen g d "min 20000 (len df)" 1]
    by (simp add: sample_scatter_def)
qed

lemma spatial_state: "spatial gen hb g df = (fst (spatial gen hb 0 df), g)"
proof -
  have "sample_scatter gen g df la lo = (fst (sample_scatter gen 0 df la lo), g)" for la lo
    by (rule sample_scatter_state)
  then show ?thesis
    by (cases "lat_col df"; cases "lon_col df")
      (auto simp: spatial_def split: prod.splits sum.splits option.splits)
qed

lemma run_state: "run gen hb g df = (fst (run gen hb 0 df), g)"
proof -
  have "spatial gen hb g d = (fst (spatial gen hb 0 d), g)" for d
    by (rule spatial_state)
  then show ?thesis
    by (auto simp: run_def split: prod.splits sum.splits)
qed

lemma dropna_pair:
  "la \<in> set (columns df) \<Longrightarrow> lo \<in> set (columns df) \<Longrightarrow>
     dropna df [la, lo] = Inr (df\<lparr>rows := with_coordinates df la lo\<rparr>)"
  by (simp add: dropna_def with_coordinates_def)

lemma take_rows_not_ValueError: "take_rows df locs \<noteq> Inl ValueError"
  by (simp add: take_rows_def)

lemma sample_scatter_fails_iff:
  assumes "la \<in> set (columns df)" and "lo \<in> set (columns df)"
  shows "fst (sample_scatter gen g df la lo) = Inl ValueError \<longleftrightarrow>
           length (with_coordinates df la lo) < min 20000 (len df)"
  using assms take_rows_not_ValueError
  by (simp add: sample_scatter_def dropna_pair sample_def len_def)

lemma example_coordinates:
  "lat_col example_df = Some ''Latitude''" "lon_col example_df = Some ''Longitude''"
  "len example_df = 4" "length (with_coordinates example_df ''Latitude'' ''Longitude'') = 3"
  by code_simp+

lemma find_append_none: "\<forall>x \<in> set ys. \<not> P x \<Longrightarrow> find P (xs @ ys) = find P xs"
  by (induction xs) (auto simp: find_None_iff)

lemma set_foldl_add_column:
  "\<exists>ys. foldl add_column cs xs = cs @ ys \<and> set ys \<subseteq> set xs"
proof (induction xs arbitrary: cs)
  case Nil
  then show ?case by simp
next
  case (Cons x xs)
  from Cons [of "add_column cs x"] obtain ys
    where ys: "foldl add_column (add_column cs x) xs = add_column cs x @ ys" "set ys \<subseteq> set xs"
    by blast
  show ?case
  proof (cases "x \<in> set cs")
    case True
    then have "add_column cs x = cs" by (simp add: add_column_def)
    with ys have "foldl add_column cs (x # xs) = cs @ ys" "set ys \<subseteq> set (x # xs)"
      by auto
    then show ?thesis by blast
  next
    case False
    then have "add_column cs x = cs @ [x]" by (simp add: add_column_def)
    with ys have "foldl add_column cs (x # xs) = cs @ (x # ys)" "set (x # ys) \<subseteq> set (x # xs)"
      by auto
    then show ?thesis by blast
  qed
qed

lemma ensure_Inr_columns:
  assumes "ensure_temporal_fields df0 = Inr df"
  shows "\<exists>ys. columns df = columns df0 @ ys \<and> set ys \<subseteq> set temporal_fields"
proof (cases "''Year'' \<notin> set (columns df0) \<and> ''IncidentDate'' \<in> set (columns df0)")
  case True
  then have y: "''Year'' \<notin> set (columns df0)" and c: "''IncidentDate'' \<in> set (columns df0)"
    by simp_all
  from ensure_temporal_fields_derived
      [OF y c ensure_Inr_dtype [OF y c assms] ensure_Inr_datetimelike [OF y c assms]] assms
  have "columns df = foldl add_column (columns df0) temporal_fields" by auto
  then show ?thesis using set_foldl_add_column by metis
next
  case False
  with assms have "df = df0" by (auto simp: ensure_temporal_fields_def)
  then show ?thesis by simp
qed

lemma temporal_fields_no_match:
  "\<forall>c \<in> set temporal_fields. \<not> startswith (lower c) ''lat''"
  "\<forall>c \<in> set temporal_fields. \<not> startswith (lower c) ''lon''"
  by code_simp+

lemma detect_after_ensure:
  assumes "ensure_temporal_fields df0 = Inr df"
  shows "lat_col df = lat_col df0" and "lon_col df = lon_col df0"
proof -
  from ensure_Inr_columns [OF assms] obtain ys where ys: "columns df = columns df0 @ ys"
    "set ys \<subseteq> set temporal_fields" by blast
  from ys(2) temporal_fields_no_match
  have "\<forall>c \<in> set ys. \<not> startswith (lower c) ''lat''" "\<forall>c \<in> set ys. \<not> startswith (lower c) ''lon''"
    by blast+
  then show "lat_col df = lat_col df0" and "lon_col df = lon_col df0"
    unfolding lat_col_def lon_col_def ys(1) by (simp_all add: find_append_none)
qed

lemma spatial_absent:
  "lat_col df = None \<or> lon_col df = None \<Longrightarrow> spatial gen hb g df = (Inr None, g)"
  by (auto simp: spatial_def)

lemma run_without_coordinates:
  assumes "lat_col df0 = None \<or> lon_col df0 = None"
  shows "run gen hb g df0 =
           (map_sum id (\<lambda>(a, b). assemble a None b) (non_spatial_views df0), g)"
proof (cases "ensure_temporal_fields df0")
  case (Inl e)
  then show ?thesis by (simp add: run_def non_spatial_views_def)
next
  case (Inr df)
  from detect_after_ensure [OF Inr] assms have "lat_col df = None \<or> lon_col df = None"
    by simp
  then have s: "spatial gen hb g df = (Inr None, g)" by (rule spatial_absent)
  show ?thesis
    by (cases "before_spatial df"; cases "after_spatial df")
      (simp_all add: run_def non_spatial_views_def Inr s)
qed

lemma example_derived:
  "\<exists>df. ensure_temporal_fields example_df = Inr df \<and> rows df = map derive (rows example_df)"
  using ensure_temporal_fields_derived
      [OF example_no_year example_has_date example_dtype example_datetimelike]
  by blast

lemma example_before_spatial:
  "\<exists>a. and_then (ensure_temporal_fields example_df) before_spatial = Inr a"
proof -
  have "and_then (ensure_temporal_fields example_df) before_spatial =
      Inr ([(Str ''THEFT'', 2), (Str ''BATTERY'', 1)],
           [(Str ''THEFT'', Num (1 / 2)), (Str ''BATTERY'', Num 1)],
           [(Time 1420070400000000000, 2), (Time 1425168000000000000, 1)],
           [1, 0, 0, 0, 0, 0, 0, 0, 0, 0, 1, 0, 0, 0, 0, 0, 0, 0, 0, 0, 0, 0, 0, 1],
           [(''Monday'', 2), (''Tuesday'', 1), (''Wednesday'', 0), (''Thursday'', 0),
            (''Friday'', 0), (''Saturday'', 0), (''Sunday'', 0)],
           [(Str ''STREET'', 2), (Str ''RESIDENCE'', 1)])"
    by code_simp
  then show ?thesis by blast
qed

lemma is_bool_iff: "is_bool c \<longleftrightarrow> (\<exists>b. c = Bool b)"
  by (cases c) auto

lemma set_foldl_add_column_eq: "set (foldl add_column cs xs) = set cs \<union> set xs"
  by (induction xs arbitrary: cs) (auto simp: add_column_def)

lemma df_ts_ok:
  assumes "''IncidentDate'' \<in> set (columns df)"
    and "''IncidentDate'' \<in> set (datetimes df)"
    and "\<forall>r \<in> set (rows df). datetimelike (r ''IncidentDate'')"
  shows "\<exists>d. df_ts df = Inr d"
  using assms by (simp add: df_ts_def dropna_single getitem_def dt_def list_all_iff)

lemma monthly_ok:
  assumes "''IncidentDate'' \<in> set (columns df)"
    and "''IncidentDate'' \<in> set (datetimes df)"
    and "\<forall>r \<in> set (rows df). datetimelike (r ''IncidentDate'')"
  shows "\<exists>mo. monthly df = Inr mo"
proof -
  from df_ts_ok [OF assms] obtain d where d: "df_ts df = Inr d" by blast
  have "getitem d ''YearMonth'' = Inr (month_keys df)"
    unfolding df_ts_Inr(3) [OF d] month_keys_def getitem_setitem_datetime
    by (rule getitem_setitem_same) simp
  then show ?thesis by (simp add: monthly_def d)
qed

lemma df_ts_date_ok:
  assumes "''IncidentDate'' \<in> set (columns df)"
    and "''IncidentDate'' \<in> set (datetimes df)"
    and "\<forall>r \<in> set (rows df). datetimelike (r ''IncidentDate'')"
  shows "\<exists>d2. df_ts_date df = Inr d2"
proof -
  from df_ts_ok [OF assms] obtain d where d: "df_ts df = Inr d" by blast
  note r = df_ts_rows [OF d]
  have c: "''IncidentDate'' \<in> set (columns d)"
    unfolding r(2) using assms(1) by (simp add: add_column_def)
  have "\<forall>x \<in> set (rows d). datetimelike (x ''IncidentDate'')"
    unfolding r(1) using assms(3) by (auto simp: with_timestamp_def)
  then have "list_all datetimelike (map (\<lambda>r. r ''IncidentDate'') (rows d))"
    by (simp add: list_all_iff)
  then show ?thesis using c r(3) by (simp add: df_ts_date_def d getitem_def dt_def)
qed

lemma monthly_groups_ok:
  assumes "''IncidentDate'' \<in> set (columns df)"
    and "''IncidentDate'' \<in> set (datetimes df)"
    and "\<forall>r \<in> set (rows df). datetimelike (r ''IncidentDate'')"
    and "''Year'' \<in> set (columns df)" and "''Month'' \<in> set (columns df)"
  shows "\<exists>mg. monthly_groups df = Inr mg"
proof -
  from df_ts_date_ok [OF assms(1,2,3)] obtain d2 where d2: "df_ts_date df = Inr d2" by blast
  note g = df_ts_date_Inr [OF d2]
  have "\<exists>dc. daily_counts df = Inr dc"
    unfolding daily_counts_def d2 and_then_Inr g(2,3,4) using assms(4,5) by simp
  then show ?thesis by (auto simp: monthly_groups_def)
qed

lemma astype_int_ok: "\<forall>c \<in> set cs. \<exists>x. c = Num x \<Longrightarrow> \<exists>ns. astype_int cs = Inr ns"
  by (induction cs) auto

lemma hourly_ok:
  assumes "''Hour'' \<in> set (columns df)"
    and "\<forall>r \<in> set (rows df). r ''Hour'' = NA \<or> (\<exists>x. r ''Hour'' = Num x)"
  shows "\<exists>ho. hourly df = Inr ho"
proof -
  have "\<forall>c \<in> set (dropna_series (map (\<lambda>r. r ''Hour'') (rows df))). \<exists>x. c = Num x"
    using assms(2) by (auto simp: dropna_series_def)
  then obtain ns where "astype_int (dropna_series (map (\<lambda>r. r ''Hour'') (rows df))) = Inr ns"
    using astype_int_ok by blast
  then show ?thesis using assms(1) by (simp add: hourly_def getitem_def)
qed

lemma derive_other: "c \<notin> set temporal_fields \<Longrightarrow> derive r c = r c"
  by (simp add: derive_def temporal_fields_def)

lemma derive_hour: "datetimelike (r ''IncidentDate'') \<Longrightarrow>
    derive r ''Hour'' = NA \<or> (\<exists>x. derive r ''Hour'' = Num x)"
  by (cases "r ''IncidentDate''") (simp_all add: derive_def)

lemma is_number_iff: "is_number c \<longleftrightarrow> (\<exists>x. c = Num x)"
  by (cases c) simp_all

lemma views_ok:
  assumes in_cols: "''Primary Type'' \<in> set (columns df)"
      "''Location Description'' \<in> set (columns df)"
      "''Arrest'' \<in> set (columns df)" "''IncidentDate'' \<in> set (columns df)"
      "''Year'' \<in> set (columns df)" "''Month'' \<in> set (columns df)"
      "''Hour'' \<in> set (columns df)" "''Weekday'' \<in> set (columns df)"
    and ty: "''IncidentDate'' \<in> set (datetimes df)"
    and dl: "\<forall>r \<in> set (rows df). datetimelike (r ''IncidentDate'')"
    and bl: "\<forall>r \<in> set (rows df). \<exists>b. r ''Arrest'' = Bool b"
    and hr: "\<forall>r \<in> set (rows df). r ''Hour'' = NA \<or> (\<exists>x. r ''Hour'' = Num x)"
  shows "\<exists>a b. before_spatial df = Inr a \<and> after_spatial df = Inr b"
proof -
  obtain tp where tp: "top_primary df = Inr tp"
    using in_cols(1) by (simp add: top_primary_def getitem_def)
  note t = top_primary_Inr [OF tp]
  note ar = arrest_rate_value [OF in_cols(1) in_cols(3) bl t(3) t(4)]
  obtain mo where mo: "monthly df = Inr mo"
    using monthly_ok [OF in_cols(4) ty dl] by blast
  obtain ho where ho: "hourly df = Inr ho"
    using hourly_ok [OF in_cols(7) hr] by blast
  obtain wd where wd: "weekday_counts df = Inr wd"
    using in_cols(8) by (simp add: weekday_counts_def getitem_def)
  obtain lt where lt: "loc_top10 df = Inr lt"
    using in_cols(2) by (simp add: loc_top10_def getitem_def)
  obtain mg where mg: "monthly_groups df = Inr mg"
    using monthly_groups_ok [OF in_cols(4) ty dl in_cols(5,6)] by blast
  have "\<exists>a. before_spatial df = Inr a"
    by (simp add: before_spatial_def tp ar mo ho wd lt)
  moreover have "\<exists>b. after_spatial df = Inr b"
    by (simp add: after_spatial_def cum_def mo mg)
  ultimately show ?thesis by blast
qed

lemma non_spatial_views_ok:
  assumes req: "required_fields df0"
  shows "\<exists>a b. non_spatial_views df0 = Inr (a, b)"
proof -
  from req have cols: "''Primary Type'' \<in> set (columns df0)"
      "''Location Description'' \<in> set (columns df0)" "''Arrest'' \<in> set (columns df0)"
      "''IncidentDate'' \<in> set (columns df0)"
    and ty: "''IncidentDate'' \<in> set (datetimes df0)"
    and dl: "\<forall>r \<in> set (rows df0). datetimelike (r ''IncidentDate'')"
    and bl: "\<forall>r \<in> set (rows df0). \<exists>b. r ''Arrest'' = Bool b"
    by (simp_all add: required_fields_def list_all_iff is_bool_iff)
  show ?thesis
  proof (cases "''Year'' \<in> set (columns df0)")
    case True
    with req have more: "''Month'' \<in> set (columns df0)" "''Hour'' \<in> set (columns df0)"
        "''Weekday'' \<in> set (columns df0)"
      and hr: "\<forall>r \<in> set (rows df0). r ''Hour'' = NA \<or> (\<exists>x. r ''Hour'' = Num x)"
      by (simp_all add: required_fields_def list_all_iff is_number_iff)
    have e: "ensure_temporal_fields df0 = Inr df0"
      using True by (simp add: ensure_temporal_fields_def)
    from views_ok [OF cols True more ty dl bl hr]
    show ?thesis by (auto simp: non_spatial_views_def e)
  next
    case y: False
    from ensure_temporal_fields_derived [OF y cols(4) ty dl] obtain df
      where e: "ensure_temporal_fields df0 = Inr df"
        and r: "rows df = map derive (rows df0)"
        and c: "columns df = foldl add_column (columns df0) temporal_fields"
        and s: "datetimes df = foldl (\<lambda>ds c. removeAll c ds) (datetimes df0) temporal_fields"
      by blast
    have cs: "set (columns df) = set (columns df0) \<union> set temporal_fields"
      unfolding c by (rule set_foldl_add_column_eq)
    have in_cols: "''Primary Type'' \<in> set (columns df)"
        "''Location Description'' \<in> set (columns df)"
        "''Arrest'' \<in> set (columns df)" "''IncidentDate'' \<in> set (columns df)"
        "''Year'' \<in> set (columns df)" "''Month'' \<in> set (columns df)"
        "''Hour'' \<in> set (columns df)" "''Weekday'' \<in> set (columns df)"
      unfolding cs using cols by (simp_all add: temporal_fields_def)
    have ty': "''IncidentDate'' \<in> set (datetimes df)"
      unfolding s set_foldl_removeAll using ty by (simp add: temporal_fields_def)
    have dl': "\<forall>r \<in> set (rows df). datetimelike (r ''IncidentDate'')"
      unfolding r using dl by (simp add: derive_other temporal_fields_def)
    have bl': "\<forall>r \<in> set (rows df). \<exists>b. r ''Arrest'' = Bool b"
      unfolding r using bl by (simp add: derive_other temporal_fields_def)
    have hr: "\<forall>r \<in> set (rows df). r ''Hour'' = NA \<or> (\<exists>x. r ''Hour'' = Num x)"
      unfolding r using dl derive_hour by auto
    from views_ok [OF in_cols ty' dl' bl' hr]
    show ?thesis by (auto simp: non_spatial_views_def e)
  qed
qed

lemma lat_col_None_iff:
  "lat_col df = None \<longleftrightarrow> (\<forall>c \<in> set (columns df). \<not> startswith (lower c) ''lat'')"
  by (auto simp: lat_col_def find_None_iff)

lemma lon_col_None_iff:
  "lon_col df = None \<longleftrightarrow> (\<forall>c \<in> set (columns df). \<not> startswith (lower c) ''lon'')"
  by (auto simp: lon_col_def find_None_iff)

lemma v_spatial_assemble [simp]: "v_spatial (assemble a s b) = s"
  by (cases a; cases b) (simp add: assemble_def)

lemma plain_facts:
  "(\<forall>c \<in> set (columns plain_df). \<not> startswith (lower c) ''lat'')"
  "required_fields plain_df"
  by code_simp+

lemma length_filter_map: "length (filter P (map f xs)) = length (filter (\<lambda>x. P (f x)) xs)"
  by (induction xs) auto

lemma example_run_fails: "run gen hb g example_df = (Inl ValueError, g)"
proof -
  from ensure_temporal_fields_derived
      [OF example_no_year example_has_date example_dtype example_datetimelike]
  obtain df where e: "ensure_temporal_fields example_df = Inr df"
    and r: "rows df = map derive (rows example_df)"
    by blast
  from example_before_spatial obtain a where a: "before_spatial df = Inr a"
    by (auto simp: e)
  from ensure_Inr_columns [OF e] have c: "''Latitude'' \<in> set (columns df)"
      "''Longitude'' \<in> set (columns df)"
    by (auto simp: example_df_def example_columns_def)
  have d: "lat_col df = Some ''Latitude''" "lon_col df = Some ''Longitude''"
    using detect_after_ensure [OF e] example_coordinates(1,2) by simp_all
  have "length (with_coordinates df ''Latitude'' ''Longitude'')
      = length (with_coordinates example_df ''Latitude'' ''Longitude'')"
    unfolding with_coordinates_def r length_filter_map
    by (simp add: derive_other temporal_fields_def)
  moreover have "len df = len example_df" by (simp add: len_def r)
  ultimately have "length (with_coordinates df ''Latitude'' ''Longitude'') < min 20000 (len df)"
    using example_coordinates(3,4) by simp
  then have "fst (sample_scatter gen g df ''Latitude'' ''Longitude'') = Inl ValueError"
    using sample_scatter_fails_iff [OF c] by blast
  then have "sample_scatter gen g df ''Latitude'' ''Longitude'' = (Inl ValueError, g)"
    using sample_scatter_state [of gen g df "''Latitude''" "''Longitude''"] by simp
  then have "spatial gen hb g df = (Inl ValueError, g)"
    by (simp add: spatial_def d)
  then show ?thesis by (simp add: run_def e a)
qed

lemma sample_seeded_ok:
  "\<not> len d < n \<Longrightarrow>
     sample gen g d n (Some seed) =
       (take_rows d (take n (fst (draw gen (seed_state gen seed) (len d)))), g)"
  by (simp add: sample_def)

lemma sample_scatter_succeeds:
  assumes c: "la \<in> set (columns df)" "lo \<in> set (columns df)"
    and p: "proper_generator gen"
    and k: "min 20000 (len df) \<le> length (with_coordinates df la lo)"
  shows "\<exists>s locs. sample_scatter gen g df la lo = (Inr s, g) \<and>
           rows s = map (\<lambda>i. with_coordinates df la lo ! i) locs \<and>
           distinct locs \<and> set locs \<subseteq> {..<length (with_coordinates df la lo)} \<and>
           length locs = min 20000 (length (with_coordinates df la lo))"
proof -
  let ?pop = "with_coordinates df la lo"
  let ?d = "df\<lparr>rows := ?pop\<rparr>"
  let ?n = "min 20000 (len df)"
  define perm where "perm = fst (draw gen (seed_state gen 1) (length ?pop))"
  define locs where "locs = take ?n perm"
  from p have perm: "distinct perm" "set perm = {..<length ?pop}"
    by (simp_all add: proper_generator_def perm_def)
  have "length perm = length ?pop"
    using perm by (metis card_lessThan distinct_card)
  then have len: "length locs = ?n" using k by (simp add: locs_def)
  have "length ?pop \<le> len df" by (simp add: with_coordinates_def len_def)
  with k have n: "?n = min 20000 (length ?pop)" by simp
  have d: "distinct locs" using perm(1) by (simp add: locs_def)
  have s: "set locs \<subseteq> {..<length ?pop}"
    using perm(2) set_take_subset [of ?n perm] by (simp add: locs_def)
  then have ok: "list_all (\<lambda>i. i < len ?d) locs" by (auto simp: list_all_iff len_def)
  have "len ?d = length ?pop" by (simp add: len_def)
  with k have "\<not> len ?d < ?n" by linarith
  then have "sample gen g ?d ?n (Some 1) =
      (take_rows ?d (take ?n (fst (draw gen (seed_state gen 1) (len ?d)))), g)"
    by (rule sample_seeded_ok)
  then have "sample gen g ?d ?n (Some 1) = (take_rows ?d locs, g)"
    unfolding locs_def perm_def \<open>len ?d = length ?pop\<close> .
  also have "take_rows ?d locs = Inr (?d\<lparr>rows := map (\<lambda>i. ?pop ! i) locs\<rparr>)"
    using ok by (simp add: take_rows_def)
  finally have "sample gen g ?d ?n (Some 1) = (Inr (?d\<lparr>rows := map (\<lambda>i. ?pop ! i) locs\<rparr>), g)" .
  then have "sample_scatter gen g df la lo = (Inr (?d\<lparr>rows := map (\<lambda>i. ?pop ! i) locs\<rparr>), g)"
    by (simp add: sample_scatter_def dropna_pair [OF c])
  with d s len n show ?thesis by auto
qed

section \<open>The claims\<close>

subsection \<open>Rankings\<close>

text \<open>
  Claim C7. Both rankings (the top primary types of line 40 and the top location
  descriptions of line 87) have at most 10 entries, list no missing value and no category
  twice, have their counts in descending-or-tied order, give every listed category the
  number of rows of the table that have it in the ranked field (at least one), and their
  counts sum to at most the number of rows.
\<close>

theorem category_count_views:
  "(top_primary df = Inr v \<longrightarrow>
      length v \<le> 10 \<and> NA \<notin> fst ` set v \<and> distinct (map fst v) \<and>
      sorted_wrt (\<lambda>a b. a \<ge> b) (map snd v) \<and>
      (\<forall>(k, n) \<in> set v. n = length (filter (\<lambda>r. r ''Primary Type'' = k) (rows df)) \<and> 0 < n) \<and>
      sum_list (map snd v) \<le> len df) \<and>
   (loc_top10 df = Inr w \<longrightarrow>
      length w \<le> 10 \<and> NA \<notin> fst ` set w \<and> distinct (map fst w) \<and>
      sorted_wrt (\<lambda>a b. a \<ge> b) (map snd w) \<and>
      (\<forall>(k, n) \<in> set w. n = length (filter (\<lambda>r. r ''Location Description'' = k) (rows df)) \<and> 0 < n) \<and>
      sum_list (map snd w) \<le> len df)"
proof (intro conjI impI)
  assume "top_primary df = Inr v"
  then obtain s where s: "getitem df ''Primary Type'' = Inr s" and v: "v = head 10 (value_counts s)"
    by (auto simp: top_primary_def and_then_Inr_iff)
  note p = ranking_props [OF s v]
  show "length v \<le> 10" by (rule p)
  show "NA \<notin> fst ` set v" by (rule p)
  show "distinct (map fst v)" by (rule p)
  show "sorted_wrt (\<lambda>a b. a \<ge> b) (map snd v)" by (rule p)
  show "\<forall>(k, n) \<in> set v. n = length (filter (\<lambda>r. r ''Primary Type'' = k) (rows df)) \<and> 0 < n"
    by (rule p)
  show "sum_list (map snd v) \<le> len df" by (rule p)
next
  assume "loc_top10 df = Inr w"
  then obtain s where s: "getitem df ''Location Description'' = Inr s"
    and w: "w = head 10 (value_counts s)"
    by (auto simp: loc_top10_def and_then_Inr_iff)
  note p = ranking_props [OF s w]
  show "length w \<le> 10" by (rule p)
  show "NA \<notin> fst ` set w" by (rule p)
  show "distinct (map fst w)" by (rule p)
  show "sorted_wrt (\<lambda>a b. a \<ge> b) (map snd w)" by (rule p)
  show "\<forall>(k, n) \<in> set w. n = length (filter (\<lambda>r. r ''Location Description'' = k) (rows df)) \<and> 0 < n"
    by (rule p)
  show "sum_list (map snd w) \<le> len df" by (rule p)
qed

theorem category_count_views_witness:
  "top_primary example_df = Inr [(Str ''THEFT'', 2), (Str ''BATTERY'', 1)] \<and>
   loc_top10 example_df = Inr [(Str ''STREET'', 2), (Str ''RESIDENCE'', 1)] \<and>
   sum_list (map snd [(Str ''THEFT'', 2::nat), (Str ''BATTERY'', 1)]) \<le> len example_df \<and>
   sum_list (map snd [(Str ''STREET'', 2::nat), (Str ''RESIDENCE'', 1)]) \<le> len example_df"
  using category_count_views [of example_df "[(Str ''THEFT'', 2), (Str ''BATTERY'', 1)]"
      "[(Str ''STREET'', 2), (Str ''RESIDENCE'', 1)]"]
  by (simp add: top_primary_example loc_top10_example)


subsection \<open>Monthly time series and cumulative series\<close>

text \<open>
  Claim C6. The monthly series (lines 59--61) is a sequence of (month, count) pairs whose
  keys are timestamps (the first instant of a calendar month) in strictly increasing
  order. Rows with a null timestamp are excluded before bucketing: the keys are exactly
  the months of the rows with a timestamp, and every count is the number of such rows in
  that month, which is at least 1, so a month with no row is absent rather than present
  with count 0. In particular, when every timestamp lies in January or March 2015 and
  both months occur, the series has exactly 2 entries, January 2015 and March 2015.
\<close>

theorem monthly_time_series:
  assumes "monthly df = Inr mo"
  shows "(\<exists>ts. map fst mo = map Time ts \<and> sorted_wrt (<) ts) \<and>
         set (map fst mo) =
           (\<lambda>r. dt_to_period_M_to_timestamp (r ''IncidentDate'')) ` set (with_timestamp df) \<and>
         (\<forall>(k, n) \<in> set mo. 0 < n \<and>
            n = length (filter (\<lambda>r. dt_to_period_M_to_timestamp (r ''IncidentDate'') = k)
                          (with_timestamp df))) \<and>
         ((\<forall>r \<in> set (with_timestamp df). \<exists>t. r ''IncidentDate'' = Time t \<and> year_of t = 2015 \<and>
              (month_of t = 1 \<or> month_of t = 3)) \<and>
          (\<exists>r \<in> set (with_timestamp df). \<exists>t. r ''IncidentDate'' = Time t \<and> month_of t = 1) \<and>
          (\<exists>r \<in> set (with_timestamp df). \<exists>t. r ''IncidentDate'' = Time t \<and> month_of t = 3)
          \<longrightarrow> length mo = 2 \<and>
              map fst mo = [Time 1420070400000000000, Time 1425168000000000000])"
proof -
  note m = monthly_Inr [OF assms]
  have keys: "map fst mo = group_keys cell_key (month_keys df)"
    by (simp add: m(1))
  have 1: "\<exists>ts. map fst mo = map Time ts \<and> sorted_wrt (<) ts"
    unfolding keys
    by (rule times_of_keys) (auto intro: month_key_Time [OF m(2)] strictly_sorted_group_keys)
  have 2: "set (map fst mo) =
      (\<lambda>r. dt_to_period_M_to_timestamp (r ''IncidentDate'')) ` set (with_timestamp df)"
    unfolding keys by (simp add: month_keys_alt)
  have 3: "\<forall>(k, n) \<in> set mo. 0 < n \<and>
            n = length (filter (\<lambda>r. dt_to_period_M_to_timestamp (r ''IncidentDate'') = k)
                          (with_timestamp df))"
  proof (clarify, rule conjI)
    fix k n assume kn: "(k, n) \<in> set mo"
    then show "0 < n" unfolding m(1) by (rule groupby_size_positive)
    from kn have "n = count_list (month_keys df) k"
      unfolding m(1) by (auto simp: set_groupby_size)
    then show "n = length (filter (\<lambda>r. dt_to_period_M_to_timestamp (r ''IncidentDate'') = k)
                          (with_timestamp df))"
      by (simp add: month_keys_alt count_list_column)
  qed
  have 4: "length mo = 2 \<and> map fst mo = [Time 1420070400000000000, Time 1425168000000000000]"
    if all: "\<forall>r \<in> set (with_timestamp df). \<exists>t. r ''IncidentDate'' = Time t \<and> year_of t = 2015 \<and>
              (month_of t = 1 \<or> month_of t = 3)"
      and jan: "\<exists>r \<in> set (with_timestamp df). \<exists>t. r ''IncidentDate'' = Time t \<and> month_of t = 1"
      and mar: "\<exists>r \<in> set (with_timestamp df). \<exists>t. r ''IncidentDate'' = Time t \<and> month_of t = 3"
  proof -
    from 1 obtain ts where ts: "map fst mo = map Time ts" "sorted_wrt (<) ts" by blast
    have a: "Time 1420070400000000000 \<in> set (map fst mo)"
    proof -
      from jan obtain r t where r: "r \<in> set (with_timestamp df)" "r ''IncidentDate'' = Time t"
        "month_of t = 1" by blast
      with all have "year_of t = 2015" by fastforce
      with r have "dt_to_period_M_to_timestamp (r ''IncidentDate'') = Time 1420070400000000000"
        using period_start_jan_2015 by (simp add: period_ordinal_def)
      with r(1) show ?thesis unfolding 2 by force
    qed
    have b: "Time 1425168000000000000 \<in> set (map fst mo)"
    proof -
      from mar obtain r t where r: "r \<in> set (with_timestamp df)" "r ''IncidentDate'' = Time t"
        "month_of t = 3" by blast
      with all have "year_of t = 2015" by fastforce
      with r have "dt_to_period_M_to_timestamp (r ''IncidentDate'') = Time 1425168000000000000"
        using period_start_mar_2015 by (simp add: period_ordinal_def)
      with r(1) show ?thesis unfolding 2 by force
    qed
    have c: "k = Time 1420070400000000000 \<or> k = Time 1425168000000000000"
      if "k \<in> set (map fst mo)" for k
    proof -
      from that obtain r where r: "r \<in> set (with_timestamp df)"
        and k: "k = dt_to_period_M_to_timestamp (r ''IncidentDate'')"
        unfolding 2 by blast
      from all r obtain t where t: "r ''IncidentDate'' = Time t" "year_of t = 2015"
        "month_of t = 1 \<or> month_of t = 3" by blast
      then show ?thesis
        using k period_start_jan_2015 period_start_mar_2015
        by (auto simp: period_ordinal_def)
    qed
    have "set ts = {1420070400000000000, 1425168000000000000}"
    proof -
      have "Time ` set ts = {Time 1420070400000000000, Time 1425168000000000000}"
        using a b c unfolding ts(1) by auto
      then show ?thesis by (auto simp: image_iff set_eq_iff) 
    qed
    then have "ts = [1420070400000000000, 1425168000000000000]"
      using ts(2) by (intro two_keys) simp_all
    with ts(1) have "map fst mo = [Time 1420070400000000000, Time 1425168000000000000]"
      by simp
    moreover from this have "length mo = length [Time 1420070400000000000, Time 1425168000000000000]"
      by (metis length_map)
    ultimately show ?thesis by simp
  qed
  from 1 2 3 4 show ?thesis by blast
qed

theorem monthly_time_series_witness:
  "monthly example_df = Inr [(Time 1420070400000000000, 2), (Time 1425168000000000000, 1)] \<and>
   length [(Time 1420070400000000000, 2::nat), (Time 1425168000000000000, 1)] = 2 \<and>
   (\<exists>r \<in> set (with_timestamp example_df). \<exists>t. r ''IncidentDate'' = Time t \<and> month_of t = 1) \<and>
   (\<exists>r \<in> set (with_timestamp example_df). \<exists>t. r ''IncidentDate'' = Time t \<and> month_of t = 3)"
proof -
  have in_set: "c \<in> set (map (\<lambda>r. r ''IncidentDate'') (with_timestamp example_df)) \<longleftrightarrow>
      (\<exists>r \<in> set (with_timestamp example_df). r ''IncidentDate'' = c)" for c
    by auto
  have all: "\<forall>r \<in> set (with_timestamp example_df). \<exists>t. r ''IncidentDate'' = Time t \<and>
      year_of t = 2015 \<and> (month_of t = 1 \<or> month_of t = 3)"
  proof
    fix r assume "r \<in> set (with_timestamp example_df)"
    then have "r ''IncidentDate'' \<in> set (map (\<lambda>r. r ''IncidentDate'') (with_timestamp example_df))"
      by simp
    then show "\<exists>t. r ''IncidentDate'' = Time t \<and> year_of t = 2015 \<and>
        (month_of t = 1 \<or> month_of t = 3)"
      unfolding example_timestamps using example_dates by auto
  qed
  have jan: "\<exists>r \<in> set (with_timestamp example_df). \<exists>t. r ''IncidentDate'' = Time t \<and> month_of t = 1"
    using in_set [of "Time 1420452000000000000"] example_dates(2)
    unfolding example_timestamps by auto
  have mar: "\<exists>r \<in> set (with_timestamp example_df). \<exists>t. r ''IncidentDate'' = Time t \<and> month_of t = 3"
    using in_set [of "Time 1425254400000000000"] example_dates(4)
    unfolding example_timestamps by auto
  from monthly_time_series [OF monthly_example] all jan mar monthly_example
  show ?thesis by simp
qed

text \<open>
  Claim C4. The cumulative series (line 114) has the periods of the monthly series, its
  i-th value is the sum of the monthly counts 0..i, it is non-decreasing, and its final
  value is the number of rows with a non-null timestamp (with no such row, both series
  are empty).
\<close>

theorem cumulative_series:
  assumes "monthly df = Inr mo"
  shows "cum df = Inr (cumsum mo) \<and>
         map fst (cumsum mo) = map fst mo \<and>
         (\<forall>i < length mo. snd (cumsum mo ! i) = sum_list (take (Suc i) (map snd mo))) \<and>
         sorted (map snd (cumsum mo)) \<and>
         (cumsum mo \<noteq> [] \<longrightarrow> snd (last (cumsum mo)) = length (with_timestamp df)) \<and>
         (cumsum mo = [] \<longrightarrow> with_timestamp df = [])"
proof (intro conjI allI impI)
  show "cum df = Inr (cumsum mo)" using assms by (simp add: cum_def)
  show "map fst (cumsum mo) = map fst mo" by simp
  show "snd (cumsum mo ! i) = sum_list (take (Suc i) (map snd mo))" if "i < length mo" for i
    using that by (rule snd_nth_cumsum)
  show "sorted (map snd (cumsum mo))" by (simp add: sorted_running)
  show "snd (last (cumsum mo)) = length (with_timestamp df)" if "cumsum mo \<noteq> []"
    using that sum_monthly [OF assms] by (simp add: snd_last_cumsum)
  show "with_timestamp df = []" if "cumsum mo = []"
    using that sum_monthly [OF assms] by simp
qed

theorem cumulative_series_witness:
  "cum example_df = Inr [(Time 1420070400000000000, 2), (Time 1425168000000000000, 3)] \<and>
   length (with_timestamp example_df) = 3"
proof -
  have c: "cumsum [(Time 1420070400000000000, 2), (Time 1425168000000000000, 1)]
             = [(Time 1420070400000000000, 2), (Time 1425168000000000000, 3)]"
    by (simp add: cumsum_def)
  show ?thesis
    using cumulative_series [OF monthly_example] unfolding c by simp
qed

subsection \<open>Temporal fields and weekday distribution\<close>

text \<open>
  Claim C9, amended. For a table that has the timestamp column, holding only parsed
  timestamps and missing values, and none of the five temporal fields, the normalizer
  (lines 22--27) succeeds and appends the columns Year, Month, Day, Hour and Weekday, each
  computed from the row's own timestamp alone; it keeps every row, in order, and every
  existing column as it was; and a row with a missing timestamp has a missing value in
  all five fields.
\<close>

theorem ensure_temporal_fields_adds:
  assumes "''IncidentDate'' \<in> set (columns df)"
    and "set [''Year'', ''Month'', ''Day'', ''Hour'', ''Weekday''] \<inter> set (columns df) = {}"
    and "\<forall>r \<in> set (rows df). datetimelike (r ''IncidentDate'')"
    and "''IncidentDate'' \<in> set (datetimes df)"
  shows "\<exists>df'. ensure_temporal_fields df = Inr df' \<and>
           columns df' = columns df @ [''Year'', ''Month'', ''Day'', ''Hour'', ''Weekday''] \<and>
           rows df' = map (\<lambda>r. r(''Year'' := dt_year (r ''IncidentDate''),
                                  ''Month'' := dt_month (r ''IncidentDate''),
                                  ''Day'' := dt_day (r ''IncidentDate''),
                                  ''Hour'' := dt_hour (r ''IncidentDate''),
                                  ''Weekday'' := dt_day_name (r ''IncidentDate''))) (rows df) \<and>
           length (rows df') = length (rows df) \<and>
           (\<forall>c \<in> set (columns df). getitem df' c = getitem df c) \<and>
           (\<forall>r \<in> set (rows df'). r ''IncidentDate'' = NA \<longrightarrow>
              r ''Year'' = NA \<and> r ''Month'' = NA \<and> r ''Day'' = NA \<and> r ''Hour'' = NA \<and>
              r ''Weekday'' = NA)"
proof -
  from assms(2) have y: "''Year'' \<notin> set (columns df)" by auto
  from ensure_temporal_fields_derived [OF y assms(1,4,3)] obtain df'
    where e: "ensure_temporal_fields df = Inr df'"
      and r: "rows df' = map derive (rows df)"
      and c: "columns df' = foldl add_column (columns df) temporal_fields"
    by blast
  have c': "columns df' = columns df @ [''Year'', ''Month'', ''Day'', ''Hour'', ''Weekday'']"
  proof -
    have "foldl add_column (columns df) temporal_fields = columns df @ temporal_fields"
      using assms(2) by (intro foldl_add_column_fresh) (auto simp: temporal_fields_def)
    then show ?thesis using c by (simp add: temporal_fields_def)
  qed
  have keep: "getitem df' c = getitem df c" if "c \<in> set (columns df)" for c
  proof -
    from that assms(2) have "c \<notin> set [''Year'', ''Month'', ''Day'', ''Hour'', ''Weekday'']"
      by blast
    then have "derive r c = r c" for r by (simp add: derive_def)
    then show ?thesis using that by (simp add: getitem_def c' r)
  qed
  have null: "r ''Year'' = NA \<and> r ''Month'' = NA \<and> r ''Day'' = NA \<and> r ''Hour'' = NA \<and>
      r ''Weekday'' = NA" if "r \<in> set (rows df')" "r ''IncidentDate'' = NA" for r
  proof -
    from that(1) obtain r0 where r0: "r = derive r0" unfolding r by auto
    then have "r0 ''IncidentDate'' = NA" using that(2) by (simp add: derive_def)
    then show ?thesis unfolding r0 by (simp add: derive_def)
  qed
  have "rows df' = map (\<lambda>r. r(''Year'' := dt_year (r ''IncidentDate''),
                                  ''Month'' := dt_month (r ''IncidentDate''),
                                  ''Day'' := dt_day (r ''IncidentDate''),
                                  ''Hour'' := dt_hour (r ''IncidentDate''),
                                  ''Weekday'' := dt_day_name (r ''IncidentDate''))) (rows df)"
    unfolding r by (rule map_cong [OF refl]) (simp add: derive_def)
  moreover have "length (rows df') = length (rows df)" by (simp add: r)
  ultimately show ?thesis using e c' keep null by blast
qed

theorem ensure_temporal_fields_adds_witness:
  "\<exists>df'. ensure_temporal_fields example_df = Inr df' \<and>
     columns df' = [''Primary Type'', ''Location Description'', ''Arrest'', ''IncidentDate'',
        ''Latitude'', ''Longitude'', ''Year'', ''Month'', ''Day'', ''Hour'', ''Weekday''] \<and>
     length (rows df') = 4"
  using ensure_temporal_fields_adds
      [OF example_has_date example_fresh example_datetimelike example_dtype]
  by (auto simp: example_df_def example_columns_def example_rows_def)

text \<open>
  The claim C9 as stated also promises null fields for a row with an unparseable
  timestamp. A timestamp column with an unparseable value is left as a column of strings
  by \<open>read_csv\<close>, and on it the \<open>.dt\<close> accessor of line 23 raises
  \<open>AttributeError\<close>: no field is derived and the run stops there.
\<close>

theorem ensure_temporal_fields_unparseable:
  "ensure_temporal_fields unparsed_df = Inl AttributeError \<and>
   run example_generator example_hexbin 0 unparsed_df = (Inl AttributeError, 0)"
proof -
  have "ensure_temporal_fields unparsed_df = Inl AttributeError"
    by (simp add: ensure_temporal_fields_def unparsed_df_def assign_dt_def getitem_def dt_def
        mk_row_def)
  then show ?thesis by (simp add: run_def)
qed

text \<open>
  Claim C5, amended. The weekday distribution (lines 78--79) has exactly 7 entries, in
  the order Monday to Sunday; every entry is the number of rows with that weekday name,
  so a name with no occurrence is present with count 0; and the 7 counts sum to the
  number of rows whose weekday value is one of the seven names. That is the number of
  rows with a non-null weekday value whenever every non-null weekday value is one of the
  seven names, as it is when the normalizer derived the field from the timestamps.
\<close>

theorem weekday_distribution:
  assumes "weekday_counts df = Inr wc"
  shows "map fst wc = [''Monday'', ''Tuesday'', ''Wednesday'', ''Thursday'', ''Friday'',
                       ''Saturday'', ''Sunday''] \<and>
         length wc = 7 \<and>
         (\<forall>(l, n) \<in> set wc. n = length (filter (\<lambda>r. r ''Weekday'' = Str l) (rows df))) \<and>
         (\<forall>l \<in> set weekday_order. (\<forall>r \<in> set (rows df). r ''Weekday'' \<noteq> Str l) \<longrightarrow> (l, 0) \<in> set wc) \<and>
         sum_list (map snd wc) =
           length (filter (\<lambda>r. r ''Weekday'' \<in> Str ` set weekday_order) (rows df)) \<and>
         ((\<forall>r \<in> set (with_weekday df). r ''Weekday'' \<in> Str ` set weekday_order) \<longrightarrow>
            sum_list (map snd wc) = length (with_weekday df)) \<and>
         (\<forall>df0. ''Year'' \<notin> set (columns df0) \<and> ''IncidentDate'' \<in> set (columns df0) \<and>
            ensure_temporal_fields df0 = Inr df \<longrightarrow>
            sum_list (map snd wc) = length (with_weekday df))"
proof -
  note wc = weekday_counts_Inr [OF assms]
  have 1: "map fst wc = [''Monday'', ''Tuesday'', ''Wednesday'', ''Thursday'', ''Friday'',
                       ''Saturday'', ''Sunday'']"
    unfolding wc by (simp add: comp_def weekday_order_def)
  have 2: "length wc = 7" unfolding wc by (simp add: weekday_order_def)
  have 3: "\<forall>(l, n) \<in> set wc. n = length (filter (\<lambda>r. r ''Weekday'' = Str l) (rows df))"
    unfolding wc by auto
  have 4: "\<forall>l \<in> set weekday_order. (\<forall>r \<in> set (rows df). r ''Weekday'' \<noteq> Str l) \<longrightarrow> (l, 0) \<in> set wc"
  proof (intro ballI impI)
    fix l assume l: "l \<in> set weekday_order" and "\<forall>r \<in> set (rows df). r ''Weekday'' \<noteq> Str l"
    then have "filter (\<lambda>r. r ''Weekday'' = Str l) (rows df) = []"
      by (simp add: filter_empty_conv)
    then show "(l, 0) \<in> set wc" unfolding wc using l by (auto simp: image_iff)
  qed
  note 5 = sum_weekday_counts [OF assms]
  have 6: "sum_list (map snd wc) = length (with_weekday df)"
    if "\<forall>r \<in> set (with_weekday df). r ''Weekday'' \<in> Str ` set weekday_order"
  proof -
    have "filter (\<lambda>r. r ''Weekday'' \<in> Str ` set weekday_order) (rows df) = with_weekday df"
      unfolding with_weekday_def using that
      by (intro filter_cong [OF refl]) (auto simp: with_weekday_def)
    with 5 show ?thesis by simp
  qed
  have 7: "sum_list (map snd wc) = length (with_weekday df)"
    if "''Year'' \<notin> set (columns df0) \<and> ''IncidentDate'' \<in> set (columns df0) \<and>
          ensure_temporal_fields df0 = Inr df" for df0
  proof (rule 6, rule ballI)
    fix r assume r: "r \<in> set (with_weekday df)"
    from that have d: "\<forall>r \<in> set (rows df0). datetimelike (r ''IncidentDate'')"
      and rows: "rows df = map derive (rows df0)"
      using ensure_Inr_datetimelike ensure_Inr_rows by blast+
    from r obtain r0 where "r0 \<in> set (rows df0)" "r = derive r0" "r ''Weekday'' \<noteq> NA"
      unfolding with_weekday_def rows by auto
    then show "r ''Weekday'' \<in> Str ` set weekday_order"
      using derived_weekday [of r0] d by auto
  qed
  from 1 2 3 4 5 6 7 show ?thesis by blast
qed

theorem weekday_distribution_witness:
  "\<exists>df. ensure_temporal_fields example_df = Inr df \<and>
     weekday_counts df =
       Inr [(''Monday'', 2), (''Tuesday'', 1), (''Wednesday'', 0), (''Thursday'', 0),
            (''Friday'', 0), (''Saturday'', 0), (''Sunday'', 0)] \<and>
     length (with_weekday df) = 3"
proof -
  from example_weekday_counts obtain df where e: "ensure_temporal_fields example_df = Inr df"
    and w: "weekday_counts df =
       Inr [(''Monday'', 2), (''Tuesday'', 1), (''Wednesday'', 0), (''Thursday'', 0),
            (''Friday'', 0), (''Saturday'', 0), (''Sunday'', 0)]"
    by (auto simp: and_then_Inr_iff)
  from weekday_distribution [OF w] example_no_year example_has_date e
  have "sum_list (map snd [(''Monday'', 2::nat), (''Tuesday'', 1), (''Wednesday'', 0),
      (''Thursday'', 0), (''Friday'', 0), (''Saturday'', 0), (''Sunday'', 0)])
        = length (with_weekday df)"
    by blast
  then have "length (with_weekday df) = 3" by simp
  with e w show ?thesis by blast
qed

text \<open>
  The claim C5 as stated equates the sum with the number of rows with a non-null
  weekday value on every table. On a table that already has a Year column the normalizer
  derives nothing, and a weekday value such as \<open>Tue\<close> is counted in no entry: the
  run succeeds, and its weekday counts sum to 1 where 2 rows have a weekday value.
\<close>

theorem weekday_distribution_counterexample:
  "ensure_temporal_fields precomputed_df = Inr precomputed_df \<and>
   weekday_counts precomputed_df =
     Inr [(''Monday'', 1), (''Tuesday'', 0), (''Wednesday'', 0), (''Thursday'', 0),
          (''Friday'', 0), (''Saturday'', 0), (''Sunday'', 0)] \<and>
   map_sum id v_weekday_counts (fst (run example_generator example_hexbin 0 precomputed_df)) =
     Inr [(''Monday'', 1), (''Tuesday'', 0), (''Wednesday'', 0), (''Thursday'', 0),
          (''Friday'', 0), (''Saturday'', 0), (''Sunday'', 0)] \<and>
   sum_list (map snd [(''Monday'', 1::nat), (''Tuesday'', 0), (''Wednesday'', 0), (''Thursday'', 0),
          (''Friday'', 0), (''Saturday'', 0), (''Sunday'', 0)]) = 1 \<and>
   length (with_weekday precomputed_df) = 2"
proof -
  have "ensure_temporal_fields precomputed_df = Inr precomputed_df"
    by (simp add: ensure_temporal_fields_def precomputed_df_def)
  moreover have "weekday_counts precomputed_df =
     Inr [(''Monday'', 1), (''Tuesday'', 0), (''Wednesday'', 0), (''Thursday'', 0),
          (''Friday'', 0), (''Saturday'', 0), (''Sunday'', 0)]"
    by code_simp
  moreover have
    "map_sum id v_weekday_counts (fst (run example_generator example_hexbin 0 precomputed_df)) =
     Inr [(''Monday'', 1), (''Tuesday'', 0), (''Wednesday'', 0), (''Thursday'', 0),
          (''Friday'', 0), (''Saturday'', 0), (''Sunday'', 0)]"
    by code_simp
  moreover have "length (with_weekday precomputed_df) = 2"
    by code_simp
  ultimately show ?thesis by simp
qed

subsection \<open>Arrest rate by category\<close>

text \<open>
  Claim C3. For a ranking \<open>tp\<close> of the table's primary types and a boolean arrest
  field, the arrest rate (lines 49--50) is computed without failure; it lists exactly the
  categories of the ranking, in the ranking's order (every one of them has at least one
  row, so none is omitted and no mean divides by zero); the rate of a category is the
  arithmetic mean of its rows' arrest values, which lies between 0 and 1. With 100 rows,
  60 of them thefts and 30 of those with an arrest, the rate of THEFT is 0.5.
\<close>

theorem arrest_rate_by_category:
  assumes tp: "top_primary df = Inr tp"
    and a: "''Arrest'' \<in> set (columns df)"
    and b: "\<forall>r \<in> set (rows df). \<exists>b. r ''Arrest'' = Bool b"
  shows "\<exists>ar. arrest_rate df (map fst tp) = Inr ar \<and>
           map fst ar = map fst tp \<and>
           (\<forall>(c, v) \<in> set ar. category_rows df c \<noteq> [] \<and> v = Num (arrest_mean df c) \<and>
              0 \<le> arrest_mean df c \<and> arrest_mean df c \<le> 1) \<and>
           (len df = 100 \<and> length (category_rows df (Str ''THEFT'')) = 60 \<and>
            length (filter (\<lambda>r. r ''Arrest'' = Bool True) (category_rows df (Str ''THEFT''))) = 30
            \<longrightarrow> map_of ar (Str ''THEFT'') = Some (Num (1 / 2)))"
proof -
  note t = top_primary_Inr [OF tp]
  define ar where "ar = map (\<lambda>c. (c, Num (arrest_mean df c))) (map fst tp)"
  have 1: "arrest_rate df (map fst tp) = Inr ar"
    unfolding ar_def by (rule arrest_rate_value [OF t(1) a b t(3) t(4)])
  have 2: "map fst ar = map fst tp" by (simp add: ar_def comp_def)
  have 3: "\<forall>(c, v) \<in> set ar. category_rows df c \<noteq> [] \<and> v = Num (arrest_mean df c) \<and>
              0 \<le> arrest_mean df c \<and> arrest_mean df c \<le> 1"
  proof (clarify, intro conjI)
    fix c v assume "(c, v) \<in> set ar"
    then have c: "c \<in> set (map fst tp)" and v: "v = Num (arrest_mean df c)"
      by (auto simp: ar_def)
    from c t(4) show "category_rows df c \<noteq> []" by blast
    show "v = Num (arrest_mean df c)" by (rule v)
    show "0 \<le> arrest_mean df c" "arrest_mean df c \<le> 1"
      using arrest_mean_bounds [OF b] by simp_all
  qed
  have 4: "map_of ar (Str ''THEFT'') = Some (Num (1 / 2))"
    if h: "len df = 100 \<and> length (category_rows df (Str ''THEFT'')) = 60 \<and>
            length (filter (\<lambda>r. r ''Arrest'' = Bool True) (category_rows df (Str ''THEFT''))) = 30"
  proof -
    let ?s = "map (\<lambda>r. r ''Primary Type'') (rows df)"
    have n: "count_list ?s (Str ''THEFT'') = 60"
      using h by (simp add: count_list_column category_rows_def)
    have "length ?s < 2 * count_list ?s (Str ''THEFT'')"
      using h n by (simp add: len_def)
    then obtain rest where "value_counts ?s = (Str ''THEFT'', count_list ?s (Str ''THEFT'')) # rest"
      using majority_first [of "Str ''THEFT''" ?s] by auto
    then have "Str ''THEFT'' \<in> set (map fst tp)"
      unfolding t(2) by (simp add: head_def)
    then have "map_of ar (Str ''THEFT'') = Some (Num (arrest_mean df (Str ''THEFT'')))"
      unfolding ar_def by (rule map_of_tabulate)
    moreover have "arrest_mean df (Str ''THEFT'') = 1 / 2"
      using h by (simp add: arrest_mean_counts [OF b])
    ultimately show ?thesis by simp
  qed
  from 1 2 3 4 show ?thesis by blast
qed

theorem arrest_rate_by_category_witness:
  "\<exists>ar. arrest_rate theft_df [Str ''THEFT'', Str ''BATTERY''] = Inr ar \<and>
     map fst ar = [Str ''THEFT'', Str ''BATTERY''] \<and>
     map_of ar (Str ''THEFT'') = Some (Num (1 / 2))"
  using arrest_rate_by_category [OF theft_top_primary theft_arrest_column theft_arrest_bool]
    theft_counts
  by auto

subsection \<open>Monthly distribution\<close>




subsection \<open>Spatial sample, determinism and the skipped spatial views\<close>

text \<open>
  Claim C1 says that the spatial sample has size min(20000, number of rows with both
  coordinates) and that its construction never fails. Line 97 asks for
  \<open>min(20000, len(df))\<close> rows, counting the rows of the table before the rows without
  coordinates are dropped. On the example table, 4 rows of which 3 have both coordinates,
  it asks for 4 of 3 rows: \<open>sample\<close> raises \<open>ValueError\<close> and the run stops
  there. (\<open>sample_scatter_fails_iff\<close> gives all tables on which this happens,
  \<open>sample_scatter_succeeds\<close> what the sample is on the others.)
\<close>

theorem sample_scatter_example_fails:
  "lat_col example_df = Some ''Latitude'' \<and> lon_col example_df = Some ''Longitude'' \<and>
   len example_df = 4 \<and>
   length (with_coordinates example_df ''Latitude'' ''Longitude'') = 3 \<and>
   sample_scatter gen g example_df ''Latitude'' ''Longitude'' = (Inl ValueError, g) \<and>
   run gen hb g example_df = (Inl ValueError, g)"
proof -
  have c: "''Latitude'' \<in> set (columns example_df)" "''Longitude'' \<in> set (columns example_df)"
    by (simp_all add: example_df_def example_columns_def)
  have s: "sample_scatter gen g example_df ''Latitude'' ''Longitude'' = (Inl ValueError, g)"
    using example_coordinates(3,4)
    by (simp add: sample_scatter_def dropna_pair [OF c] sample_def len_def)
  with example_coordinates example_run_fails [of gen hb g] show ?thesis by simp
qed

text \<open>
  Claim C2. The outcome of a run (the views, or the exception) does not depend on the
  state of the global random generator, and a run leaves that state as it found it; so
  a second run on the same table, started where the first one ended, has the identical
  outcome. The same holds for the spatial sampler alone: its sample is a function of
  the table and the fixed seed 1.
\<close>

theorem run_deterministic:
  "fst (run gen hb g1 df) = fst (run gen hb g2 df) \<and>
   snd (run gen hb g1 df) = g1 \<and>
   fst (run gen hb (snd (run gen hb g1 df)) df) = fst (run gen hb g1 df) \<and>
   fst (sample_scatter gen g1 df la lo) = fst (sample_scatter gen g2 df la lo) \<and>
   snd (sample_scatter gen g1 df la lo) = g1"
proof -
  have r: "run gen hb g df = (fst (run gen hb 0 df), g)" for g
    by (rule run_state)
  have s: "sample_scatter gen g df la lo = (fst (sample_scatter gen 0 df la lo), g)" for g
    by (rule sample_scatter_state)
  show ?thesis
    using r [of g1] r [of g2] s [of g1] s [of g2] by simp
qed

text \<open>
  Claim C8. On a table with no column whose lower-cased name starts with \<open>lat\<close>, or
  none whose lower-cased name starts with \<open>lon\<close>, the spatial stage produces neither
  sample nor density and raises nothing, and the run is exactly the non-spatial views
  with the spatial views absent: an exception can only come from a non-spatial view.
  When the table has the required fields (and the temporal fields are derived), the
  run raises nothing and produces all non-spatial views.
\<close>

theorem spatial_views_skipped:
  assumes "(\<forall>c \<in> set (columns df0). \<not> startswith (lower c) ''lat'') \<or>
           (\<forall>c \<in> set (columns df0). \<not> startswith (lower c) ''lon'')"
  shows "run gen hb g df0 =
           (map_sum id (\<lambda>(a, b). assemble a None b) (non_spatial_views df0), g) \<and>
         (\<forall>df. ensure_temporal_fields df0 = Inr df \<longrightarrow> spatial gen hb g df = (Inr None, g)) \<and>
         (required_fields df0 \<longrightarrow>
            (\<exists>v. run gen hb g df0 = (Inr v, g) \<and> v_spatial v = None))"
proof -
  from assms have n: "lat_col df0 = None \<or> lon_col df0 = None"
    by (simp add: lat_col_None_iff lon_col_None_iff)
  note 1 = run_without_coordinates [OF n, of gen hb g]
  have 2: "spatial gen hb g df = (Inr None, g)" if "ensure_temporal_fields df0 = Inr df" for df
    using detect_after_ensure [OF that] n by (intro spatial_absent) simp
  have 3: "\<exists>v. run gen hb g df0 = (Inr v, g) \<and> v_spatial v = None"
    if "required_fields df0"
  proof -
    from that non_spatial_views_ok obtain a b where "non_spatial_views df0 = Inr (a, b)"
      by blast
    then have "run gen hb g df0 = (Inr (assemble a None b), g)"
      unfolding 1 by simp
    then show ?thesis by simp
  qed
  from 1 2 3 show ?thesis by blast
qed

theorem spatial_views_skipped_witness:
  "\<exists>v. run example_generator example_hexbin 0 plain_df = (Inr v, 0) \<and> v_spatial v = None"
  using spatial_views_skipped [of plain_df example_generator example_hexbin 0] plain_facts
  by blast


end
